theory Spec2Isabelle
  imports Main "HOL-Library.Word"
begin

unbundle bit_operations_syntax

section \<open>Machine types and constants\<close>

text \<open>
  The program is Linux-only (it calls \<^verbatim>\<open>splice(2)\<close>), so \<^verbatim>\<open>size_t\<close> is an unsigned and
  \<^verbatim>\<open>off_t\<close>, \<^verbatim>\<open>ssize_t\<close>, \<^verbatim>\<open>std::streamoff\<close> are signed 64-bit integers. Both are 64-bit
  words here; a signed one is read with \<open>sint\<close>, an unsigned one with \<open>unat\<close>, and the
  conversion between them keeps the bits. \<^verbatim>\<open>mode_t\<close> is a 32-bit word.
\<close>

type_synonym byte = "8 word"
type_synonym size_t = "64 word"
type_synonym off_t = "64 word"
type_synonym mode_t = "32 word"

text \<open>\<^verbatim>\<open>constexpr size_t default_bufsize = 1<<13;\<close>\<close>

definition default_bufsize :: nat where
  "default_bufsize = 2 ^ 13"

text \<open>\<^verbatim>\<open>enum class FdType { reg, fifo, other };\<close>\<close>

datatype FdType = reg | fifo | other

text \<open>
  The file-type bits of \<^verbatim>\<open>st_mode\<close> and the open flags, with the values of
  \<^verbatim>\<open><sys/stat.h>\<close> and \<^verbatim>\<open><fcntl.h>\<close> on Linux (octal 0170000, 0140000, 0100000, 0060000,
  0040000, 0020000, 0010000).
\<close>

definition S_IFMT :: mode_t where "S_IFMT = 61440"
definition S_IFSOCK :: mode_t where "S_IFSOCK = 49152"
definition S_IFREG :: mode_t where "S_IFREG = 32768"
definition S_IFBLK :: mode_t where "S_IFBLK = 24576"
definition S_IFDIR :: mode_t where "S_IFDIR = 16384"
definition S_IFCHR :: mode_t where "S_IFCHR = 8192"
definition S_IFIFO :: mode_t where "S_IFIFO = 4096"

definition O_RDONLY :: int where "O_RDONLY = 0"
definition O_WRONLY :: int where "O_WRONLY = 1"

datatype whence = SEEK_SET | SEEK_CUR | SEEK_END

datatype errno = EINTR | EBADF | ENOENT | EMFILE | ESPIPE | EINVAL | EFAULT | EIO

section \<open>The environment: descriptors, process memory, thread-local objects\<close>

text \<open>
  What a descriptor refers to. A regular file has its whole content and an offset. A
  stream (pipe, socket, terminal, character device) has the data that will still arrive
  before end-of-input, in the units one transfer can move at most: a \<^verbatim>\<open>read\<close> or
  \<^verbatim>\<open>splice\<close> returns no more than the first unit, and \<open>Stream []\<close> is end-of-input
  (all writers gone). \<open>Sink\<close> is the null device. \<open>PipeR i\<close> and \<open>PipeW i\<close> are the two
  ends of the \<open>i\<close>-th pipe made by \<^verbatim>\<open>pipe(2)\<close>.
\<close>

datatype fobj =
    RegFile "byte list" nat
  | Stream "byte list list"
  | Sink
  | PipeR nat
  | PipeW nat

record ofile =
  st_mode :: mode_t
  stat_errno :: "errno option"
  obj :: fobj
  oflags :: int

text \<open>A pointer is a heap block and an offset into it.\<close>

datatype ptr = Ptr (blk: nat) (ofs: nat)

text \<open>
  The handle of the program (\<^verbatim>\<open>class Fd\<close>: \<^verbatim>\<open>int fd; FdType type; bool owned;\<close>) and its
  pipe pair (\<^verbatim>\<open>class Pipe\<close>: \<^verbatim>\<open>int read; int write;\<close>). They are declared here because
  the function-local \<^verbatim>\<open>thread_local\<close> objects of the skip routines live in the state.
\<close>

record Fd =
  fd :: int
  type :: FdType
  owned :: bool

record Pipe =
  read_end :: int
  write_end :: int

text \<open>
  The state every operation threads through: the kernel's descriptor table, the paths
  that can be opened, the buffers of the kernel pipes, a log of every \<^verbatim>\<open>close\<close> call, the
  number of signals still to interrupt a blocking call; the process heap with a log of
  every \<^verbatim>\<open>delete[]\<close>; and the three \<^verbatim>\<open>thread_local\<close> objects (\<open>None\<close> until first use).
\<close>

record world =
  fdtab :: "int \<Rightarrow> ofile option"
  next_fd :: int
  fd_limit :: int
  fs :: "string \<Rightarrow> ofile option"
  pipes :: "nat \<Rightarrow> byte list"
  next_pipe :: nat
  closes :: "int list"
  intr :: nat
  heap :: "nat \<Rightarrow> byte list option"
  next_blk :: nat
  deletes :: "nat list"
  tl_dev_null_pipe :: "Fd option"
  tl_dev_null :: "Fd option"
  tl_p :: "Pipe option"

subsection \<open>Memory\<close>

definition ptr_add :: "ptr \<Rightarrow> nat \<Rightarrow> ptr" where
  "ptr_add p n = Ptr (blk p) (ofs p + n)"

definition ptr_diff :: "ptr \<Rightarrow> ptr \<Rightarrow> int" where
  "ptr_diff p q = int (ofs p) - int (ofs q)"

text \<open>Reading or writing outside a live block is undefined in C++; here it yields \<open>None\<close>.\<close>

definition load :: "(nat \<Rightarrow> byte list option) \<Rightarrow> ptr \<Rightarrow> byte option" where
  "load h p =
     (case h (blk p) of
        None \<Rightarrow> None
      | Some bs \<Rightarrow> if ofs p < length bs then Some (bs ! ofs p) else None)"

definition load_range :: "(nat \<Rightarrow> byte list option) \<Rightarrow> ptr \<Rightarrow> nat \<Rightarrow> byte list option" where
  "load_range h p n =
     (case h (blk p) of
        None \<Rightarrow> None
      | Some bs \<Rightarrow> if ofs p + n \<le> length bs then Some (take n (drop (ofs p) bs)) else None)"

definition store_range :: "(nat \<Rightarrow> byte list option) \<Rightarrow> ptr \<Rightarrow> byte list \<Rightarrow> (nat \<Rightarrow> byte list option) option" where
  "store_range h p bs =
     (case h (blk p) of
        None \<Rightarrow> None
      | Some old \<Rightarrow>
          if ofs p + length bs \<le> length old
          then Some (h(blk p \<mapsto> take (ofs p) old @ bs @ drop (ofs p + length bs) old))
          else None)"

text \<open>\<^verbatim>\<open>new char[n]\<close> (the content of fresh storage is indeterminate; zeros here).\<close>

definition new_arr :: "nat \<Rightarrow> world \<Rightarrow> ptr \<times> world" where
  "new_arr n w =
     (Ptr (next_blk w) 0,
      w\<lparr>heap := (heap w)(next_blk w \<mapsto> replicate n 0), next_blk := next_blk w + 1\<rparr>)"

text \<open>\<^verbatim>\<open>delete[] p\<close>: the block is gone and the call is logged.\<close>

definition delete_arr :: "ptr \<Rightarrow> world \<Rightarrow> world" where
  "delete_arr p w = w\<lparr>heap := (heap w)(blk p := None), deletes := deletes w @ [blk p]\<rparr>"

subsection \<open>System calls\<close>

text \<open>
  Each call returns \<open>Inl\<close> of the error number where the C function returns \<open>-1\<close>.
  Descriptor numbers are handed out in increasing order (\<open>next_fd\<close>) and not handed out
  again. A pending signal interrupts the next \<^verbatim>\<open>open\<close>, \<^verbatim>\<open>read\<close> or \<^verbatim>\<open>splice\<close>. \<^verbatim>\<open>fstat\<close>
  fails on a descriptor whose \<open>stat_errno\<close> is set. \<^verbatim>\<open>lseek\<close> fails when the new offset
  would be negative or would not fit an \<^verbatim>\<open>off_t\<close>.
\<close>

definition sys_fstat :: "int \<Rightarrow> world \<Rightarrow> errno + mode_t" where
  "sys_fstat d w =
     (case fdtab w d of
        None \<Rightarrow> Inl EBADF
      | Some f \<Rightarrow> (case stat_errno f of Some e \<Rightarrow> Inl e | None \<Rightarrow> Inr (st_mode f)))"

definition sys_open :: "string \<Rightarrow> int \<Rightarrow> world \<Rightarrow> (errno + int) \<times> world" where
  "sys_open pth flags w =
     (if 0 < intr w then (Inl EINTR, w\<lparr>intr := intr w - 1\<rparr>)
      else case fs w pth of
        None \<Rightarrow> (Inl ENOENT, w)
      | Some f \<Rightarrow>
          if fd_limit w \<le> next_fd w then (Inl EMFILE, w)
          else (Inr (next_fd w),
                w\<lparr>fdtab := (fdtab w)(next_fd w \<mapsto> f\<lparr>oflags := flags\<rparr>),
                  next_fd := next_fd w + 1\<rparr>))"

definition sys_close :: "int \<Rightarrow> world \<Rightarrow> world" where
  "sys_close d w = w\<lparr>fdtab := (fdtab w)(d := None), closes := closes w @ [d]\<rparr>"

definition sys_pipe :: "world \<Rightarrow> (errno + int \<times> int) \<times> world" where
  "sys_pipe w =
     (if fd_limit w \<le> next_fd w + 1 then (Inl EMFILE, w)
      else (Inr (next_fd w, next_fd w + 1),
            w\<lparr>fdtab := (fdtab w)
                  (next_fd w \<mapsto> \<lparr>st_mode = S_IFIFO, stat_errno = None,
                                 obj = PipeR (next_pipe w), oflags = O_RDONLY\<rparr>,
                   next_fd w + 1 \<mapsto> \<lparr>st_mode = S_IFIFO, stat_errno = None,
                                     obj = PipeW (next_pipe w), oflags = O_WRONLY\<rparr>),
              next_fd := next_fd w + 2,
              pipes := (pipes w)(next_pipe w := []),
              next_pipe := next_pipe w + 1\<rparr>))"

text \<open>
  What one transfer of at most \<open>k\<close> bytes takes out of an object: the bytes, the object
  afterwards and the pipe buffers afterwards; \<open>None\<close> when the object cannot be read.
\<close>

fun source_take :: "(nat \<Rightarrow> byte list) \<Rightarrow> fobj \<Rightarrow> nat \<Rightarrow> (byte list \<times> fobj \<times> (nat \<Rightarrow> byte list)) option" where
  "source_take ps (RegFile c p) k = Some (take k (drop p c), RegFile c (p + length (take k (drop p c))), ps)"
| "source_take ps (Stream []) k = Some ([], Stream [], ps)"
| "source_take ps (Stream (c # cs)) k =
     Some (take k c, Stream (if drop k c = [] then cs else drop k c # cs), ps)"
| "source_take ps Sink k = Some ([], Sink, ps)"
| "source_take ps (PipeR i) k = Some (take k (ps i), PipeR i, ps(i := drop k (ps i)))"
| "source_take ps (PipeW i) k = None"

text \<open>Where a transfer can put bytes: the null device drops them, a pipe's write end queues them.\<close>

fun sink_put :: "(nat \<Rightarrow> byte list) \<Rightarrow> fobj \<Rightarrow> byte list \<Rightarrow> (nat \<Rightarrow> byte list) option" where
  "sink_put ps Sink bs = Some ps"
| "sink_put ps (PipeW i) bs = Some (ps(i := ps i @ bs))"
| "sink_put ps (RegFile c p) bs = None"
| "sink_put ps (Stream cs) bs = None"
| "sink_put ps (PipeR i) bs = None"

definition sys_read :: "int \<Rightarrow> ptr \<Rightarrow> nat \<Rightarrow> world \<Rightarrow> (errno + nat) \<times> world" where
  "sys_read d bufp count w =
     (if 0 < intr w then (Inl EINTR, w\<lparr>intr := intr w - 1\<rparr>)
      else case fdtab w d of
        None \<Rightarrow> (Inl EBADF, w)
      | Some f \<Rightarrow>
          if oflags f = O_WRONLY then (Inl EBADF, w)
          else (case source_take (pipes w) (obj f) count of
                  None \<Rightarrow> (Inl EBADF, w)
                | Some (bs, ob, ps) \<Rightarrow>
                    (case store_range (heap w) bufp bs of
                       None \<Rightarrow> (Inl EFAULT, w)
                     | Some h \<Rightarrow>
                         (Inr (length bs),
                          w\<lparr>fdtab := (fdtab w)(d \<mapsto> f\<lparr>obj := ob\<rparr>), pipes := ps, heap := h\<rparr>))))"

definition sys_lseek :: "int \<Rightarrow> off_t \<Rightarrow> whence \<Rightarrow> world \<Rightarrow> (errno + int) \<times> world" where
  "sys_lseek d offset wh w =
     (case fdtab w d of
        None \<Rightarrow> (Inl EBADF, w)
      | Some f \<Rightarrow>
          (case obj f of
             RegFile c p \<Rightarrow>
               (let base = (case wh of SEEK_SET \<Rightarrow> 0 | SEEK_CUR \<Rightarrow> int p | SEEK_END \<Rightarrow> int (length c));
                    new = base + sint offset
                in if new < 0 \<or> 2 ^ 63 \<le> new then (Inl EINVAL, w)
                   else (Inr new, w\<lparr>fdtab := (fdtab w)(d \<mapsto> f\<lparr>obj := RegFile c (nat new)\<rparr>)\<rparr>))
           | Sink \<Rightarrow> (Inr 0, w)
           | Stream cs \<Rightarrow> (Inl ESPIPE, w)
           | PipeR i \<Rightarrow> (Inl ESPIPE, w)
           | PipeW i \<Rightarrow> (Inl ESPIPE, w)))"

text \<open>
  \<^verbatim>\<open>splice(2)\<close> moves bytes inside the kernel. It needs a pipe on at least one side, refuses
  a length that is negative as an \<^verbatim>\<open>ssize_t\<close> (above \<open>2^63 - 1\<close>), cannot take the null device
  as its source, and a pending signal interrupts it.
\<close>

definition is_pipe :: "ofile \<Rightarrow> bool" where
  "is_pipe f = (st_mode f AND S_IFMT = S_IFIFO)"

definition sys_splice :: "int \<Rightarrow> int \<Rightarrow> size_t \<Rightarrow> world \<Rightarrow> (errno + nat) \<times> world" where
  "sys_splice fd_in fd_out len w =
     (case fdtab w fd_in of
        None \<Rightarrow> (Inl EBADF, w)
      | Some fi \<Rightarrow>
          (case fdtab w fd_out of
             None \<Rightarrow> (Inl EBADF, w)
           | Some fo \<Rightarrow>
               if \<not> is_pipe fi \<and> \<not> is_pipe fo then (Inl EINVAL, w)
               else if sint len < 0 then (Inl EINVAL, w)
               else if obj fi = Sink then (Inl EINVAL, w)
               else if 0 < intr w then (Inl EINTR, w\<lparr>intr := intr w - 1\<rparr>)
               else (case source_take (pipes w) (obj fi) (unat len) of
                       None \<Rightarrow> (Inl EBADF, w)
                     | Some (bs, ob, ps) \<Rightarrow>
                         (case sink_put ps (obj fo) bs of
                            None \<Rightarrow> (Inl EINVAL, w)
                          | Some ps' \<Rightarrow>
                              (Inr (length bs),
                               w\<lparr>fdtab := (fdtab w)(fd_in \<mapsto> fi\<lparr>obj := ob\<rparr>), pipes := ps'\<rparr>)))))"

section \<open>The program\<close>

text \<open>
  Every \<^verbatim>\<open>throw std::runtime_error\<close> of the source, one constructor per throw site (the
  message's text is its prefix and \<^verbatim>\<open>strerror(errno)\<close>). \<open>MemoryFault\<close> stands for an access
  outside a live block, which C++ leaves undefined.
\<close>

datatype error =
    FdError int errno
  | PathError string errno
  | PipeError errno
  | ReadError errno
  | SeekError errno
  | SplicePipeToNullFailed errno
  | SpliceWriteFailed errno
  | SplicePrematureZero size_t
  | Splice1Failed errno
  | MemoryFault

subsection \<open>\<^verbatim>\<open>class Fd\<close>\<close>

text \<open>\<^verbatim>\<open>Fd(int _fd)\<close>: borrows the descriptor.\<close>

definition Fd_int :: "int \<Rightarrow> world \<Rightarrow> (error + Fd) \<times> world" where
  "Fd_int d w =
     (case sys_fstat d w of
        Inr m \<Rightarrow>
          (Inr \<lparr>fd = d,
                type = (if m AND S_IFREG \<noteq> 0 then reg
                        else if m AND S_IFIFO \<noteq> 0 then fifo
                        else other),
                owned = False\<rparr>, w)
      | Inl e \<Rightarrow> (Inl (FdError d e), w))"

text \<open>The \<^verbatim>\<open>while ((this->fd = ::open(...)) == -1)\<close> loop of \<^verbatim>\<open>Fd(const std::string&, int)\<close>.\<close>

function open_loop :: "string \<Rightarrow> int \<Rightarrow> world \<Rightarrow> (error + int) \<times> world" where
  "open_loop pth flags w =
     (case sys_open pth flags w of
        (Inr d, w1) \<Rightarrow> (Inr d, w1)
      | (Inl e, w1) \<Rightarrow>
          if e \<noteq> EINTR then (Inl (PathError pth e), w1)
          else open_loop pth flags w1)"
  by pat_completeness auto
termination
  by (relation "measure (\<lambda>(pth, flags, w). intr w)")
    (auto simp: sys_open_def split: if_splits option.splits)

declare open_loop.simps [simp del]

text \<open>\<^verbatim>\<open>Fd(const std::string& pth, int flags)\<close>: opens and owns the descriptor.\<close>

definition Fd_path :: "string \<Rightarrow> int \<Rightarrow> world \<Rightarrow> (error + Fd) \<times> world" where
  "Fd_path pth flags w =
     (case open_loop pth flags w of
        (Inl e, w1) \<Rightarrow> (Inl e, w1)
      | (Inr d, w1) \<Rightarrow>
          (case sys_fstat d w1 of
             Inr m \<Rightarrow>
               (Inr \<lparr>fd = d,
                     type = (if m AND S_IFREG \<noteq> 0 then reg
                             else if m AND S_IFIFO \<noteq> 0 then fifo
                             else other),
                     owned = True\<rparr>, w1)
           | Inl e \<Rightarrow> (Inl (PathError pth e), sys_close d w1)))"

text \<open>\<^verbatim>\<open>~Fd()\<close>\<close>

definition Fd_dtor :: "Fd \<Rightarrow> world \<Rightarrow> world" where
  "Fd_dtor f w = (if owned f then sys_close (fd f) w else w)"

text \<open>\<^verbatim>\<open>Pipe()\<close> and \<^verbatim>\<open>~Pipe()\<close>\<close>

definition Pipe_ctor :: "world \<Rightarrow> (error + Pipe) \<times> world" where
  "Pipe_ctor w =
     (case sys_pipe w of
        (Inr (r, wr), w1) \<Rightarrow> (Inr \<lparr>read_end = r, write_end = wr\<rparr>, w1)
      | (Inl e, w1) \<Rightarrow> (Inl (PipeError e), w1))"

definition Pipe_dtor :: "Pipe \<Rightarrow> world \<Rightarrow> world" where
  "Pipe_dtor p w = sys_close (write_end p) (sys_close (read_end p) w)"

subsection \<open>Free functions on a handle\<close>

text \<open>\<^verbatim>\<open>size_t read(Fd& fd, void* buf, size_t count)\<close>: one read, retried while interrupted.\<close>

function read :: "Fd \<Rightarrow> ptr \<Rightarrow> nat \<Rightarrow> world \<Rightarrow> (error + nat) \<times> world" where
  "read f bufp count w =
     (case sys_read (fd f) bufp count w of
        (Inr n, w1) \<Rightarrow> (Inr n, w1)
      | (Inl e, w1) \<Rightarrow>
          if e \<noteq> EINTR then (Inl (ReadError e), w1)
          else read f bufp count w1)"
  by pat_completeness auto
termination
  by (relation "measure (\<lambda>(f, bufp, count, w). intr w)")
    (auto simp: sys_read_def split: if_splits option.splits prod.splits)

declare read.simps [simp del]

text \<open>\<^verbatim>\<open>void lseek(Fd& fd, off_t offset, int whence)\<close>\<close>

definition lseek :: "Fd \<Rightarrow> off_t \<Rightarrow> whence \<Rightarrow> world \<Rightarrow> (error + unit) \<times> world" where
  "lseek f offset wh w =
     (case sys_lseek (fd f) offset wh w of
        (Inr o1, w1) \<Rightarrow> (Inr (), w1)
      | (Inl e, w1) \<Rightarrow> (Inl (SeekError e), w1))"

text \<open>
  \<^verbatim>\<open>thread_local Fd dev_null{"/dev/null", O_WRONLY};\<close> inside \<^verbatim>\<open>splice_pipe_to_null\<close>: built
  when control first passes the declaration; a constructor that throws leaves it unbuilt.
\<close>

definition get_dev_null_pipe :: "world \<Rightarrow> (error + Fd) \<times> world" where
  "get_dev_null_pipe w =
     (case tl_dev_null_pipe w of
        Some dn \<Rightarrow> (Inr dn, w)
      | None \<Rightarrow>
          (case Fd_path ''/dev/null'' O_WRONLY w of
             (Inr dn, w1) \<Rightarrow> (Inr dn, w1\<lparr>tl_dev_null_pipe := Some dn\<rparr>)
           | (Inl e, w1) \<Rightarrow> (Inl e, w1)))"

text \<open>The same declaration inside \<^verbatim>\<open>splice_to_null\<close>, and its \<^verbatim>\<open>thread_local Pipe p;\<close>.\<close>

definition get_dev_null :: "world \<Rightarrow> (error + Fd) \<times> world" where
  "get_dev_null w =
     (case tl_dev_null w of
        Some dn \<Rightarrow> (Inr dn, w)
      | None \<Rightarrow>
          (case Fd_path ''/dev/null'' O_WRONLY w of
             (Inr dn, w1) \<Rightarrow> (Inr dn, w1\<lparr>tl_dev_null := Some dn\<rparr>)
           | (Inl e, w1) \<Rightarrow> (Inl e, w1)))"

definition get_p :: "world \<Rightarrow> (error + Pipe) \<times> world" where
  "get_p w =
     (case tl_p w of
        Some p \<Rightarrow> (Inr p, w)
      | None \<Rightarrow>
          (case Pipe_ctor w of
             (Inr p, w1) \<Rightarrow> (Inr p, w1\<lparr>tl_p := Some p\<rparr>)
           | (Inl e, w1) \<Rightarrow> (Inl e, w1)))"

text \<open>
  The \<^verbatim>\<open>while (n > 0)\<close> loop of \<^verbatim>\<open>splice_pipe_to_null\<close>. Nothing bounds the number of rounds
  (a transfer of 0 bytes leaves \<open>n\<close> as it is), so not returning is the value \<open>None\<close>.
\<close>

partial_function (option) splice_pipe_loop :: "Fd \<Rightarrow> Fd \<Rightarrow> size_t \<Rightarrow> world \<Rightarrow> ((error + unit) \<times> world) option" where
  "splice_pipe_loop f dev_null n w =
     (if 0 < n then
        (case sys_splice (fd f) (fd dev_null) n w of
           (Inr r, w1) \<Rightarrow> splice_pipe_loop f dev_null (n - of_nat r) w1
         | (Inl e, w1) \<Rightarrow> Some (Inl (SplicePipeToNullFailed e), w1))
      else Some (Inr (), w))"

declare splice_pipe_loop.simps [code]

text \<open>\<^verbatim>\<open>void splice_pipe_to_null(Fd& fd, size_t n)\<close>\<close>

definition splice_pipe_to_null :: "Fd \<Rightarrow> size_t \<Rightarrow> world \<Rightarrow> ((error + unit) \<times> world) option" where
  "splice_pipe_to_null f n w =
     (case get_dev_null_pipe w of
        (Inl e, w1) \<Rightarrow> Some (Inl e, w1)
      | (Inr dev_null, w1) \<Rightarrow> splice_pipe_loop f dev_null n w1)"

text \<open>
  \<^verbatim>\<open>void splice_to_null(Fd& fd, size_t n)\<close>. Every path through the body of its
  \<^verbatim>\<open>while (n > 0)\<close> leaves the loop (\<^verbatim>\<open>n -= read; break;\<close> or a \<^verbatim>\<open>throw\<close>), so the body runs
  at most once and there is no recursion to write; \<open>n\<close> is a local that dies at the break.
\<close>

definition splice_to_null :: "Fd \<Rightarrow> size_t \<Rightarrow> world \<Rightarrow> (error + unit) \<times> world" where
  "splice_to_null f n w =
     (case get_dev_null w of
        (Inl e, w1) \<Rightarrow> (Inl e, w1)
      | (Inr dev_null, w1) \<Rightarrow>
          (case get_p w1 of
             (Inl e, w2) \<Rightarrow> (Inl e, w2)
           | (Inr p, w2) \<Rightarrow>
               if 0 < n then
                 (case sys_splice (fd f) (write_end p) n w2 of
                    (Inr rd, w3) \<Rightarrow>
                      if 0 < rd then
                        (case sys_splice (read_end p) (fd dev_null) (of_nat rd) w3 of
                           (Inr written, w4) \<Rightarrow> (Inr (), w4)
                         | (Inl e, w4) \<Rightarrow> (Inl (SpliceWriteFailed e), w4))
                      else (Inl (SplicePrematureZero n), w3)
                  | (Inl e, w3) \<Rightarrow> (Inl (Splice1Failed e), w3))
               else (Inr (), w2)))"

text \<open>\<^verbatim>\<open>void skip(Fd& fd, size_t n)\<close>; the \<^verbatim>\<open>off_t\<close> parameter of \<^verbatim>\<open>lseek\<close> receives the bits of \<open>n\<close>.\<close>

definition skip :: "Fd \<Rightarrow> size_t \<Rightarrow> world \<Rightarrow> ((error + unit) \<times> world) option" where
  "skip f n w =
     (case type f of
        reg \<Rightarrow> Some (lseek f n SEEK_CUR w)
      | fifo \<Rightarrow> splice_pipe_to_null f n w
      | other \<Rightarrow> Some (splice_to_null f n w))"

subsection \<open>\<^verbatim>\<open>class fdbuf : public std::streambuf\<close>\<close>

datatype seekdir = ios_beg | ios_cur | ios_end

datatype openflag = ios_app | ios_ate | ios_binary | ios_in | ios_out | ios_trunc

type_synonym openmode = "openflag set"

text \<open>
  The get area of the base class (\<^verbatim>\<open>eback()\<close>, \<^verbatim>\<open>gptr()\<close>, \<^verbatim>\<open>egptr()\<close>) and the members
  \<^verbatim>\<open>Fd fd; char* buf; size_t capacity; bool owned;\<close> (\<open>hfd\<close> and \<open>buf_owned\<close> here, the
  names \<open>fd\<close> and \<open>owned\<close> being the handle's).
\<close>

record fdbuf =
  eback :: ptr
  gptr :: ptr
  egptr :: ptr
  hfd :: Fd
  buf :: ptr
  capacity :: nat
  buf_owned :: bool

definition setg :: "fdbuf \<Rightarrow> ptr \<Rightarrow> ptr \<Rightarrow> ptr \<Rightarrow> fdbuf" where
  "setg b gbeg gnext gend = b\<lparr>eback := gbeg, gptr := gnext, egptr := gend\<rparr>"

text \<open>\<^verbatim>\<open>std::char_traits<char>::eof()\<close>\<close>

definition eof :: int where
  "eof = - 1"

text \<open>
  \<^verbatim>\<open>fdbuf(const std::string& pth)\<close> and \<^verbatim>\<open>fdbuf(int _fd)\<close>: the member initialisers
  (\<^verbatim>\<open>fd\<close>, then \<^verbatim>\<open>buf = new char[default_bufsize]\<close>, \<^verbatim>\<open>capacity\<close>, \<^verbatim>\<open>owned = true\<close>), then
  \<^verbatim>\<open>setg(buf, buf, buf)\<close>.
\<close>

definition fdbuf_path :: "string \<Rightarrow> world \<Rightarrow> (error + fdbuf) \<times> world" where
  "fdbuf_path pth w =
     (case Fd_path pth O_RDONLY w of
        (Inl e, w1) \<Rightarrow> (Inl e, w1)
      | (Inr f, w1) \<Rightarrow>
          (case new_arr default_bufsize w1 of
             (p, w2) \<Rightarrow>
               (Inr \<lparr>eback = p, gptr = p, egptr = p, hfd = f, buf = p,
                     capacity = default_bufsize, buf_owned = True\<rparr>, w2)))"

definition fdbuf_int :: "int \<Rightarrow> world \<Rightarrow> (error + fdbuf) \<times> world" where
  "fdbuf_int d w =
     (case Fd_int d w of
        (Inl e, w1) \<Rightarrow> (Inl e, w1)
      | (Inr f, w1) \<Rightarrow>
          (case new_arr default_bufsize w1 of
             (p, w2) \<Rightarrow>
               (Inr \<lparr>eback = p, gptr = p, egptr = p, hfd = f, buf = p,
                     capacity = default_bufsize, buf_owned = True\<rparr>, w2)))"

text \<open>\<^verbatim>\<open>~fdbuf()\<close>: the body, then the member \<^verbatim>\<open>fd\<close> is destroyed.\<close>

definition fdbuf_dtor :: "fdbuf \<Rightarrow> world \<Rightarrow> world" where
  "fdbuf_dtor b w = Fd_dtor (hfd b) (if buf_owned b then delete_arr (buf b) w else w)"

text \<open>\<^verbatim>\<open>int underflow()\<close>; \<^verbatim>\<open>to_int_type(*gptr())\<close> reads the byte as an unsigned char.\<close>

definition underflow :: "fdbuf \<Rightarrow> world \<Rightarrow> (error + int) \<times> fdbuf \<times> world" where
  "underflow b w =
     (case (if gptr b = egptr b then
              (case read (hfd b) (buf b) (capacity b) w of
                 (Inl e, w1) \<Rightarrow> (Inl e, b, w1)
               | (Inr n, w1) \<Rightarrow> (Inr (), setg b (buf b) (buf b) (ptr_add (buf b) n), w1))
            else (Inr (), b, w)) of
        (Inl e, b1, w1) \<Rightarrow> (Inl e, b1, w1)
      | (Inr u, b1, w1) \<Rightarrow>
          if gptr b1 = egptr b1 then (Inr eof, b1, w1)
          else (case load (heap w1) (gptr b1) of
                  None \<Rightarrow> (Inl MemoryFault, b1, w1)
                | Some c \<Rightarrow> (Inr (uint c), b1, w1)))"

text \<open>
  The loop of \<^verbatim>\<open>xsgetn\<close>. The bytes copied through \<^verbatim>\<open>s\<close> so far are the list \<open>s\<close>; the
  function's value \<^verbatim>\<open>n - rem\<close> is its length. Counts are natural numbers (a count that is
  not positive copies nothing). A window whose end is not after its cursor
  although the two differ cannot arise from \<^verbatim>\<open>setg\<close> as this class calls it; the copy
  would be undefined and is a \<open>MemoryFault\<close> here.
\<close>

function xsgetn_loop :: "fdbuf \<Rightarrow> nat \<Rightarrow> byte list \<Rightarrow> world \<Rightarrow> (error + byte list) \<times> fdbuf \<times> world" where
  "xsgetn_loop b rem s w =
     (if 0 < rem then
        (case (if gptr b = egptr b then underflow b w else (Inr 0, b, w)) of
           (Inl e, b1, w1) \<Rightarrow> (Inl e, b1, w1)
         | (Inr c, b1, w1) \<Rightarrow>
             if c = eof then (Inr s, b1, w1)
             else
               (let avail = ptr_diff (egptr b1) (gptr b1);
                    amt = min (int rem) avail
                in if amt \<le> 0 then (Inl MemoryFault, b1, w1)
                   else (case load_range (heap w1) (gptr b1) (nat amt) of
                           None \<Rightarrow> (Inl MemoryFault, b1, w1)
                         | Some bs \<Rightarrow>
                             xsgetn_loop
                               (setg b1 (eback b1) (ptr_add (gptr b1) (nat amt)) (egptr b1))
                               (rem - nat amt) (s @ bs) w1)))
      else (Inr s, b, w))"
  by pat_completeness auto
termination
  by (relation "measure (\<lambda>(b, rem, s, w). rem)") auto

declare xsgetn_loop.simps [simp del]

text \<open>\<^verbatim>\<open>std::streamsize xsgetn(char* s, std::streamsize n)\<close>\<close>

definition xsgetn :: "fdbuf \<Rightarrow> nat \<Rightarrow> world \<Rightarrow> (error + byte list) \<times> fdbuf \<times> world" where
  "xsgetn b n w = xsgetn_loop b n [] w"

text \<open>
  \<^verbatim>\<open>std::streampos seekoff(std::streamoff off, std::ios::seekdir way, std::ios::openmode which)\<close>.
  The base class's \<^verbatim>\<open>std::streambuf::seekoff\<close> does nothing and returns \<^verbatim>\<open>pos_type(off_type(-1))\<close>.
  \<^verbatim>\<open>off - buffered\<close> is a signed 64-bit difference handed to the \<^verbatim>\<open>size_t\<close> parameter of
  \<^verbatim>\<open>skip\<close>.
\<close>

definition seekoff :: "fdbuf \<Rightarrow> off_t \<Rightarrow> seekdir \<Rightarrow> openmode \<Rightarrow> world \<Rightarrow> ((error + int) \<times> fdbuf \<times> world) option" where
  "seekoff b off way which w =
     (if which = {ios_out} \<or> way \<noteq> ios_cur then Some (Inr (- 1), b, w)
      else
        (let gend = egptr b;
             buffered = ptr_diff gend (gptr b);
             b1 = setg b (eback b) gend gend
         in case skip (hfd b1) (off - word_of_int buffered) w of
              None \<Rightarrow> None
            | Some (Inl e, w1) \<Rightarrow> Some (Inl e, b1, w1)
            | Some (Inr u, w1) \<Rightarrow> Some (Inr (ptr_diff (gptr b1) (eback b1)), b1, w1)))"

text \<open>\<^verbatim>\<open>std::streambuf* setbuf(char* s, std::streamsize n)\<close>\<close>

definition setbuf :: "fdbuf \<Rightarrow> ptr \<Rightarrow> nat \<Rightarrow> world \<Rightarrow> fdbuf \<times> world" where
  "setbuf b s n w =
     (b\<lparr>buf_owned := False, buf := s, capacity := n\<rparr>,
      if buf_owned b then delete_arr (buf b) w else w)"

subsection \<open>\<^verbatim>\<open>class fdistream : public std::istream\<close>\<close>

text \<open>
  \<^verbatim>\<open>fdistream(const std::string& pth)\<close> and \<^verbatim>\<open>fdistream(int fd)\<close> build the buffer
  (\<^verbatim>\<open>buf{new fdbuf(...)}\<close>) and install it with \<^verbatim>\<open>rdbuf(buf)\<close>; \<^verbatim>\<open>~fdistream()\<close> is
  \<^verbatim>\<open>delete buf\<close>. The stream keeps no state of its own besides its buffer.
\<close>

definition fdistream_path :: "string \<Rightarrow> world \<Rightarrow> (error + fdbuf) \<times> world" where
  "fdistream_path pth w = fdbuf_path pth w"

definition fdistream_int :: "int \<Rightarrow> world \<Rightarrow> (error + fdbuf) \<times> world" where
  "fdistream_int d w = fdbuf_int d w"

definition fdistream_dtor :: "fdbuf \<Rightarrow> world \<Rightarrow> world" where
  "fdistream_dtor b w = fdbuf_dtor b w"

section \<open>Clients and concrete states\<close>

text \<open>
  Sample descriptors: the null device, a regular file with content \<open>c\<close>, and a FIFO, a
  character device and a socket whose remaining input arrives in the units \<open>cs\<close>. The
  low bits of \<open>st_mode\<close> are permission bits (octal 0666, 0644, 0600, 0620, 0777).
\<close>

definition dev_null_file :: ofile where
  "dev_null_file = \<lparr>st_mode = S_IFCHR OR 438, stat_errno = None, obj = Sink, oflags = O_RDONLY\<rparr>"

definition reg_file :: "byte list \<Rightarrow> ofile" where
  "reg_file c = \<lparr>st_mode = S_IFREG OR 420, stat_errno = None, obj = RegFile c 0, oflags = O_RDONLY\<rparr>"

definition fifo_file :: "byte list list \<Rightarrow> ofile" where
  "fifo_file cs = \<lparr>st_mode = S_IFIFO OR 384, stat_errno = None, obj = Stream cs, oflags = O_RDONLY\<rparr>"

definition chr_file :: "byte list list \<Rightarrow> ofile" where
  "chr_file cs = \<lparr>st_mode = S_IFCHR OR 400, stat_errno = None, obj = Stream cs, oflags = O_RDONLY\<rparr>"

definition sock_file :: "byte list list \<Rightarrow> ofile" where
  "sock_file cs = \<lparr>st_mode = S_IFSOCK OR 511, stat_errno = None, obj = Stream cs, oflags = O_RDONLY\<rparr>"

text \<open>
  A process with \<open>f\<close> open as descriptor 3, the same object reachable as \<^verbatim>\<open>data.bin\<close>, the
  null device at \<^verbatim>\<open>/dev/null\<close>, an empty heap, no signal pending and no thread-local
  object built yet.
\<close>

definition ex_world :: "ofile \<Rightarrow> world" where
  "ex_world f =
     \<lparr>fdtab = Map.empty(3 \<mapsto> f), next_fd = 4, fd_limit = 1024,
      fs = Map.empty(''/dev/null'' \<mapsto> dev_null_file, ''data.bin'' \<mapsto> f),
      pipes = (\<lambda>i. []), next_pipe = 0, closes = [], intr = 0,
      heap = Map.empty, next_blk = 1, deletes = [],
      tl_dev_null_pipe = None, tl_dev_null = None, tl_p = None\<rparr>"

text \<open>
  A client of a borrowed handle on descriptor 3: one \<open>skip\<close>, reported with what is left
  on the descriptor afterwards. \<open>None\<close> is a call that never returns.
\<close>

definition skip_borrowed :: "ofile \<Rightarrow> size_t \<Rightarrow> ((error + unit) \<times> fobj option) option" where
  "skip_borrowed f n =
     (case Fd_int 3 (ex_world f) of
        (Inl e, w) \<Rightarrow> Some (Inl e, None)
      | (Inr h, w) \<Rightarrow> map_option (\<lambda>(r, w1). (r, map_option obj (fdtab w1 3))) (skip h n w))"

text \<open>
  A client of the buffer: a script of calls on \<^verbatim>\<open>rdbuf()\<close> through the public members of
  \<^verbatim>\<open>std::streambuf\<close>, which forward to the overridden ones (\<^verbatim>\<open>sgetn\<close> to \<^verbatim>\<open>xsgetn\<close>,
  \<^verbatim>\<open>pubseekoff\<close> to \<^verbatim>\<open>seekoff\<close>, \<^verbatim>\<open>pubsetbuf\<close> to \<^verbatim>\<open>setbuf\<close>, here with a fresh array of the
  stated size), with what each call returned. These are the calls the \<^verbatim>\<open>std::istream\<close>
  base of \<^verbatim>\<open>fdistream\<close> makes: \<^verbatim>\<open>read\<close> calls \<^verbatim>\<open>sgetn\<close>, \<^verbatim>\<open>seekg(off, way)\<close> calls
  \<^verbatim>\<open>pubseekoff(off, way, in)\<close> and \<^verbatim>\<open>tellg()\<close> calls \<^verbatim>\<open>pubseekoff(0, cur, in)\<close>. The script stops
  at the first exception.
\<close>

datatype stream_op = Read nat | Seek off_t seekdir openmode | SetBuf nat

datatype outcome = Bytes "byte list" | Pos int | BufferSet | Failed error

fun run_stream :: "stream_op list \<Rightarrow> fdbuf \<Rightarrow> world \<Rightarrow> (outcome list \<times> fdbuf \<times> world) option" where
  "run_stream [] b w = Some ([], b, w)"
| "run_stream (Read n # ops) b w =
     (case xsgetn b n w of
        (Inl e, b1, w1) \<Rightarrow> Some ([Failed e], b1, w1)
      | (Inr bs, b1, w1) \<Rightarrow>
          map_option (\<lambda>(os, bw). (Bytes bs # os, bw)) (run_stream ops b1 w1))"
| "run_stream (Seek off way which # ops) b w =
     (case seekoff b off way which w of
        None \<Rightarrow> None
      | Some (Inl e, b1, w1) \<Rightarrow> Some ([Failed e], b1, w1)
      | Some (Inr p, b1, w1) \<Rightarrow>
          map_option (\<lambda>(os, bw). (Pos p # os, bw)) (run_stream ops b1 w1))"
| "run_stream (SetBuf n # ops) b w =
     (case new_arr n w of
        (p, w1) \<Rightarrow>
          (case setbuf b p n w1 of
             (b2, w2) \<Rightarrow>
               map_option (\<lambda>(os, bw). (BufferSet # os, bw)) (run_stream ops b2 w2)))"

text \<open>The script run on a new stream over descriptor 3: what the client sees.\<close>

definition observe :: "ofile \<Rightarrow> stream_op list \<Rightarrow> outcome list option" where
  "observe f ops =
     (case fdistream_int 3 (ex_world f) of
        (Inl e, w) \<Rightarrow> Some [Failed e]
      | (Inr b, w) \<Rightarrow> map_option fst (run_stream ops b w))"

text \<open>
  The bytes of the window that are buffered and not yet read, and the script's outcomes
  together with those bytes and with what is left on descriptor 3 when the script ends.
\<close>

definition unread :: "fdbuf \<Rightarrow> world \<Rightarrow> byte list option" where
  "unread b w = load_range (heap w) (gptr b) (nat (ptr_diff (egptr b) (gptr b)))"

definition observe_left :: "ofile \<Rightarrow> stream_op list \<Rightarrow> (outcome list \<times> byte list option \<times> fobj option) option" where
  "observe_left f ops =
     (case fdistream_int 3 (ex_world f) of
        (Inl e, w) \<Rightarrow> Some ([Failed e], None, None)
      | (Inr b, w) \<Rightarrow>
          map_option (\<lambda>(os, b1, w1). (os, unread b1 w1, map_option obj (fdtab w1 3)))
            (run_stream ops b w))"

text \<open>
  The operations on a handle (the friend functions of \<^verbatim>\<open>Fd\<close>), run in sequence whatever
  each returns or throws; \<open>None\<close> when one of them never returns.
\<close>

datatype fd_op = OpRead ptr nat | OpLseek off_t whence | OpSkip size_t

fun run_op :: "Fd \<Rightarrow> fd_op \<Rightarrow> world \<Rightarrow> world option" where
  "run_op f (OpRead p n) w = Some (snd (read f p n w))"
| "run_op f (OpLseek offset wh) w = Some (snd (lseek f offset wh w))"
| "run_op f (OpSkip n) w = map_option snd (skip f n w)"

fun run_ops :: "Fd \<Rightarrow> fd_op list \<Rightarrow> world \<Rightarrow> world option" where
  "run_ops f [] w = Some w"
| "run_ops f (x # xs) w = (case run_op f x w of None \<Rightarrow> None | Some w1 \<Rightarrow> run_ops f xs w1)"

text \<open>
  A step from \<open>w\<close> to \<open>w'\<close> leaves descriptor \<open>d\<close> alone: if \<open>d\<close> was handed out before
  the step, it still was afterwards, no \<^verbatim>\<open>close\<close> of \<open>d\<close> was added to the log, and \<open>d\<close> is
  still open if it was.
\<close>

definition undisturbed :: "int \<Rightarrow> world \<Rightarrow> world \<Rightarrow> bool" where
  "undisturbed d w w' =
     (d < next_fd w \<longrightarrow>
        d < next_fd w' \<and> count_list (closes w') d = count_list (closes w) d \<and>
        (fdtab w d \<noteq> None \<longrightarrow> fdtab w' d \<noteq> None))"

section \<open>Evaluation\<close>

lemmas eval_defs =
  open_loop.simps read.simps xsgetn_loop.simps
  observe_def observe_left_def unread_def skip_borrowed_def fdistream_int_def fdbuf_int_def Fd_int_def sys_fstat_def ex_world_def
  reg_file_def fifo_file_def chr_file_def sock_file_def dev_null_file_def
  new_arr_def default_bufsize_def xsgetn_def underflow_def setg_def ptr_add_def ptr_diff_def
  sys_read_def store_range_def load_range_def load_def eof_def O_RDONLY_def O_WRONLY_def
  S_IFREG_def S_IFIFO_def S_IFCHR_def S_IFSOCK_def S_IFMT_def
  seekoff_def skip_def lseek_def sys_lseek_def splice_to_null_def get_dev_null_def
  get_p_def Pipe_ctor_def sys_pipe_def Fd_path_def sys_open_def sys_splice_def is_pipe_def
  setbuf_def delete_arr_def Let_def word_gt_0

lemma uint_byte_not_eof [simp]: "uint (c::byte) \<noteq> - 1"
  using uint_ge_0 [of c] by linarith

section \<open>Skipping on descriptors that cannot seek\<close>

text \<open>
  Claim C1 says that \<open>skip\<close> on a descriptor of kind \<open>other\<close> is all-or-nothing: it
  transfers until exactly \<open>n\<close> bytes are discarded or fails. The code is evaluated here on
  a character device whose input arrives as 3 bytes, then 2 bytes: \<open>skip\<close> of 5 returns
  without error after the first pair of transfers and leaves the last 2 bytes on the
  descriptor.
\<close>

theorem skip_other_returns_after_first_transfer:
  "skip_borrowed (chr_file [[1, 2, 3], [4, 5]]) 5 = Some (Inr (), Some (Stream [[4, 5]]))"
  by (simp add: eval_defs)

text \<open>At end-of-input on a pipe every transfer moves 0 bytes and the loop never ends.\<close>

lemma splice_pipe_loop_at_eof:
  assumes "fdtab w (fd f) = Some fi" "obj fi = Stream []" "is_pipe fi"
    and "fdtab w (fd dn) = Some fo" "obj fo = Sink" "0 < n" "0 \<le> sint n" "intr w = 0"
  shows "splice_pipe_loop f dn n w = None"
proof (rule ccontr)
  assume "splice_pipe_loop f dn n w \<noteq> None"
  then obtain y where y: "splice_pipe_loop f dn n w = Some y" by auto
  have "\<not> (\<exists>fi fo. fdtab w (fd f) = Some fi \<and> obj fi = Stream [] \<and> is_pipe fi \<and>
            fdtab w (fd dn) = Some fo \<and> obj fo = Sink \<and> 0 < n \<and> 0 \<le> sint n \<and> intr w = 0)"
  proof (rule splice_pipe_loop.raw_induct [OF _ y])
    fix g and f dn :: Fd and n :: size_t and w :: world and y :: "(error + unit) \<times> world"
    assume ih: "\<And>f dn n w y. g f dn n w = Some y \<Longrightarrow>
        \<not> (\<exists>fi fo. fdtab w (fd f) = Some fi \<and> obj fi = Stream [] \<and> is_pipe fi \<and>
            fdtab w (fd dn) = Some fo \<and> obj fo = Sink \<and> 0 < n \<and> 0 \<le> sint n \<and> intr w = 0)"
      and st: "(if 0 < n
           then case sys_splice (fd f) (fd dn) n w of
                  (Inl e, w1) \<Rightarrow> Some (Inl (SplicePipeToNullFailed e), w1)
                | (Inr r, w1) \<Rightarrow> g f dn (n - word_of_nat r) w1
           else Some (Inr (), w)) = Some y"
    show "\<not> (\<exists>fi fo. fdtab w (fd f) = Some fi \<and> obj fi = Stream [] \<and> is_pipe fi \<and>
            fdtab w (fd dn) = Some fo \<and> obj fo = Sink \<and> 0 < n \<and> 0 \<le> sint n \<and> intr w = 0)"
    proof
      assume "\<exists>fi fo. fdtab w (fd f) = Some fi \<and> obj fi = Stream [] \<and> is_pipe fi \<and>
            fdtab w (fd dn) = Some fo \<and> obj fo = Sink \<and> 0 < n \<and> 0 \<le> sint n \<and> intr w = 0"
      then obtain fi fo where a: "fdtab w (fd f) = Some fi" "obj fi = Stream []" "is_pipe fi"
          "fdtab w (fd dn) = Some fo" "obj fo = Sink" "0 < n" "0 \<le> sint n" "intr w = 0"
        by blast
      let ?w = "w\<lparr>fdtab := (fdtab w)(fd f \<mapsto> fi\<lparr>obj := Stream []\<rparr>), pipes := pipes w\<rparr>"
      have sp: "sys_splice (fd f) (fd dn) n w = (Inr 0, ?w)"
        using a by (simp add: sys_splice_def)
      have "g f dn n ?w = Some y"
        using st a sp by simp
      from ih [OF this] a show False
        by (cases "fd dn = fd f") (auto simp: is_pipe_def)
    qed
  qed
  with assms show False by blast
qed

lemma splice_pipe_loop_spins:
  assumes "map_option obj (fdtab w (fd f)) = Some (Stream [])"
    and "map_option is_pipe (fdtab w (fd f)) = Some True"
    and "map_option obj (fdtab w (fd dn)) = Some Sink"
    and "n \<noteq> 0" "0 \<le> sint n" "intr w = 0"
  shows "splice_pipe_loop f dn n w = None"
proof -
  from assms obtain fi fo where "fdtab w (fd f) = Some fi" "obj fi = Stream []" "is_pipe fi"
    "fdtab w (fd dn) = Some fo" "obj fo = Sink"
    by auto
  moreover have "0 < n" using assms(4) by (simp add: word_gt_0)
  ultimately show ?thesis using assms(5,6) by (rule splice_pipe_loop_at_eof)
qed

text \<open>
  A FIFO with 50 bytes left: the first transfer of \<open>skip\<close> of 51 moves the 50 bytes, and the
  loop goes on with 1 byte outstanding at end-of-input.
\<close>

lemma fifo_skip_51_of_50:
  "skip_borrowed (fifo_file [replicate 50 7]) 51 = None"
  apply (simp add: eval_defs splice_pipe_to_null_def get_dev_null_pipe_def)
  apply (subst splice_pipe_loop.simps)
  apply (simp add: eval_defs splice_pipe_loop_spins)
  done

text \<open>
  What does hold at the end of the input: on a FIFO, skipping exactly the 50 bytes that
  remain succeeds and leaves end-of-input; on a character device with nothing left, a
  skip of 1 fails with the error of the zero-byte transfer.
\<close>

lemma skip_exact_remainder_examples:
  "skip_borrowed (fifo_file [replicate 30 7, replicate 20 7]) 50 = Some (Inr (), Some (Stream []))"
  "skip_borrowed (chr_file []) 1 = Some (Inl (SplicePrematureZero 1), Some (Stream []))"
  by (simp_all add: eval_defs splice_pipe_to_null_def get_dev_null_pipe_def splice_pipe_loop.simps)

text \<open>
  Claim C2 says that on a FIFO or a descriptor of kind \<open>other\<close> holding exactly \<open>r\<close> bytes,
  \<open>skip\<close> of more than \<open>r\<close> fails with the premature-end error and \<open>skip\<close> of \<open>r\<close> succeeds
  and leaves end-of-input. The code is evaluated here with 50 bytes left. On a FIFO,
  \<open>skip\<close> of 51 never returns. On a character device, \<open>skip\<close> of 51 returns without error;
  and when the 50 bytes arrive as 30 and 20, \<open>skip\<close> of 50 returns without error with 20
  bytes still to be read.
\<close>

theorem skip_past_end_of_input:
  "skip_borrowed (fifo_file [replicate 50 7]) 51 = None
   \<and> skip_borrowed (chr_file [replicate 50 7]) 51 = Some (Inr (), Some (Stream []))
   \<and> skip_borrowed (chr_file [replicate 30 7, replicate 20 7]) 50 =
       Some (Inr (), Some (Stream [replicate 20 7]))"
  using fifo_skip_51_of_50 by (simp add: eval_defs)

section \<open>What \<open>seekoff\<close> reports\<close>

lemma seekoff_fallback:
  assumes "which = {ios_out} \<or> way \<noteq> ios_cur"
  shows "seekoff b off way which w = Some (Inr (- 1), b, w)"
  using assms by (auto simp: seekoff_def)

lemma seekoff_cur:
  assumes "which \<noteq> {ios_out}"
  shows "seekoff b off ios_cur which w =
     map_option (\<lambda>(r, w1). (map_sum id (\<lambda>u. ptr_diff (egptr b) (eback b)) r, b\<lparr>gptr := egptr b\<rparr>, w1))
       (skip (hfd b) (word_of_int (sint off - ptr_diff (egptr b) (gptr b))) w)"
  using assms
  by (auto simp: seekoff_def setg_def Let_def split: option.splits sum.splits prod.splits)

lemma seekoff_reported:
  assumes "which \<noteq> {ios_out}"
    and "seekoff b off ios_cur which w = Some (Inr p, b1, w1)"
  shows "p = ptr_diff (egptr b) (eback b)"
  using assms
  by (auto simp: seekoff_def setg_def Let_def split: option.splits sum.splits prod.splits)

lemma regular_10000_scenario:
  assumes "length c = 10000"
  shows "observe (reg_file c) [Seek 4096 ios_cur {ios_in}, Read 100, Seek 0 ios_cur {ios_in}] =
           Some [Pos 0, Bytes (take 100 (drop 4096 c)), Pos 5904]"
  using assms by (simp add: eval_defs min_def)

lemma ten_byte_position_examples:
  "observe (reg_file [1, 2, 3, 4, 5, 6, 7, 8, 9, 10])
     [Seek 4 ios_cur {ios_in}, Seek 0 ios_cur {ios_in}] = Some [Pos 0, Pos 0]"
  "observe (reg_file [1, 2, 3, 4, 5, 6, 7, 8, 9, 10])
     [Read 4, Seek 0 ios_cur {ios_in}] = Some [Bytes [1, 2, 3, 4], Pos 10]"
  by (simp_all add: eval_defs)

text \<open>
  Claim C3 says that a forward relative seek on the \<open>skip\<close> path reports the new absolute
  position of the stream: 4096 after a skip of 4096 on a regular file of 10000 bytes, and
  4196 after the read of 100 bytes that follows. The value returned is \<^verbatim>\<open>gptr() - eback()\<close>,
  the length of the buffer window (\<open>seekoff_reported\<close>), which is the position only by
  accident. The code is evaluated here on the file whose byte at offset \<open>i\<close> is
  \<open>i mod 256\<close>: the skip reports 0, the read returns the bytes at offsets 4096 to 4195, and
  the position reported afterwards is 5904. On a file of 10 bytes the same position 4
  is reported as 0 when it was reached by a skip and as 10 when it was reached by a read.
\<close>

theorem seekoff_reports_window_offset:
  "observe (reg_file (map of_nat [0..<10000]))
     [Seek 4096 ios_cur {ios_in}, Read 100, Seek 0 ios_cur {ios_in}] =
     Some [Pos 0, Bytes (take 100 (drop 4096 (map of_nat [0..<10000]))), Pos 5904]
   \<and> observe (reg_file [1, 2, 3, 4, 5, 6, 7, 8, 9, 10])
     [Seek 4 ios_cur {ios_in}, Seek 0 ios_cur {ios_in}] = Some [Pos 0, Pos 0]
   \<and> observe (reg_file [1, 2, 3, 4, 5, 6, 7, 8, 9, 10])
     [Read 4, Seek 0 ios_cur {ios_in}] = Some [Bytes [1, 2, 3, 4], Pos 10]"
  using regular_10000_scenario [of "map of_nat [0..<10000]"] ten_byte_position_examples
  by simp

section \<open>Which seeks take the \<open>skip\<close> path\<close>

lemma backward_seek_regular:
  "observe (reg_file [1, 2, 3, 4, 5, 6, 7, 8, 9, 10])
     [Read 4, Seek (- 1) ios_cur {ios_in}, Read 2] =
     Some [Bytes [1, 2, 3, 4], Pos 10, Bytes [4, 5]]"
  "observe (reg_file [1, 2, 3, 4, 5, 6, 7, 8, 9, 10])
     [Read 4, Seek (- 1) ios_beg {ios_in}, Read 2] =
     Some [Bytes [1, 2, 3, 4], Pos (- 1), Bytes [5, 6]]"
  "observe (reg_file [1, 2, 3, 4, 5, 6, 7, 8, 9, 10])
     [Read 4, Seek 1 ios_cur {ios_out}, Read 2] =
     Some [Bytes [1, 2, 3, 4], Pos (- 1), Bytes [5, 6]]"
  by (simp_all add: eval_defs)

lemma backward_seek_chr:
  "observe_left (chr_file [[1, 2, 3], [4, 5]]) [Read 1] =
     Some ([Bytes [1]], Some [2, 3], Some (Stream [[4, 5]]))"
  "observe_left (chr_file [[1, 2, 3], [4, 5]]) [Read 1, Seek (- 1) ios_cur {ios_in}] =
     Some ([Bytes [1], Failed (Splice1Failed EINVAL)], Some [], Some (Stream [[4, 5]]))"
  "observe_left (chr_file [[1, 2, 3], [4, 5]]) [Read 1, Seek (- 1) ios_beg {ios_in}] =
     Some ([Bytes [1], Pos (- 1)], Some [2, 3], Some (Stream [[4, 5]]))"
  by (simp_all add: eval_defs)

text \<open>
  Claim C4 says that only relative, forward, input-direction seeks take the \<open>skip\<close> path and
  that every other seek, a backward one included, falls back to the default seek of the
  base class. The guard of \<open>seekoff\<close> tests the direction and the mode only
  (\<open>seekoff_fallback\<close>, \<open>seekoff_cur\<close>). The code is evaluated here on relative seeks by
  \<open>-1\<close>. On a regular file of 10 bytes after 4 bytes were read, the seek takes the \<open>skip\<close>
  path: it reports 10 and moves the file offset, so that the next read starts at the
  fourth byte; the absolute seek and the output-mode seek fall back, report \<open>-1\<close> and
  leave the stream alone. On a character device whose input arrives as 3 bytes, then 2
  bytes, after 1 byte was read, the seek takes the \<open>skip\<close> path as well: the 2 buffered
  bytes are dropped and the transfer is refused for its length, so the seek throws, where
  the absolute seek reports \<open>-1\<close> and keeps the buffered bytes.
\<close>

theorem backward_seek_takes_skip_path:
  "observe (reg_file [1, 2, 3, 4, 5, 6, 7, 8, 9, 10])
     [Read 4, Seek (- 1) ios_cur {ios_in}, Read 2] =
     Some [Bytes [1, 2, 3, 4], Pos 10, Bytes [4, 5]]
   \<and> observe (reg_file [1, 2, 3, 4, 5, 6, 7, 8, 9, 10])
     [Read 4, Seek (- 1) ios_beg {ios_in}, Read 2] =
     Some [Bytes [1, 2, 3, 4], Pos (- 1), Bytes [5, 6]]
   \<and> observe (reg_file [1, 2, 3, 4, 5, 6, 7, 8, 9, 10])
     [Read 4, Seek 1 ios_cur {ios_out}, Read 2] =
     Some [Bytes [1, 2, 3, 4], Pos (- 1), Bytes [5, 6]]
   \<and> observe_left (chr_file [[1, 2, 3], [4, 5]]) [Read 1] =
     Some ([Bytes [1]], Some [2, 3], Some (Stream [[4, 5]]))
   \<and> observe_left (chr_file [[1, 2, 3], [4, 5]]) [Read 1, Seek (- 1) ios_cur {ios_in}] =
     Some ([Bytes [1], Failed (Splice1Failed EINVAL)], Some [], Some (Stream [[4, 5]]))
   \<and> observe_left (chr_file [[1, 2, 3], [4, 5]]) [Read 1, Seek (- 1) ios_beg {ios_in}] =
     Some ([Bytes [1], Pos (- 1)], Some [2, 3], Some (Stream [[4, 5]]))"
  using backward_seek_regular backward_seek_chr by blast

section \<open>Replacing the buffer\<close>

text \<open>
  What \<open>setbuf\<close> does: it installs the new buffer and capacity, gives up ownership,
  releases an owned buffer once (the destructor releases nothing afterwards), and leaves
  the three pointers of the get area where they were.
\<close>

lemma setbuf_effect:
  assumes "setbuf b s n w = (b1, w1)"
  shows "buf b1 = s \<and> capacity b1 = n \<and> \<not> buf_owned b1
     \<and> deletes w1 = deletes w @ (if buf_owned b then [blk (buf b)] else [])
     \<and> deletes (fdbuf_dtor b1 w1) = deletes w1
     \<and> eback b1 = eback b \<and> gptr b1 = gptr b \<and> egptr b1 = egptr b"
  using assms
  by (auto simp: setbuf_def delete_arr_def fdbuf_dtor_def Fd_dtor_def sys_close_def)

text \<open>
  Claim C5 says that \<open>setbuf\<close> resets the read window to empty, so that every later read
  uses the new buffer and never touches the old one. The code is evaluated here on a
  regular file of 10 bytes. After 4 bytes were read (6 more are buffered), \<open>setbuf\<close> with a
  16-byte array releases the internal buffer and the next read copies from the released
  block. After \<open>setbuf\<close> with a 16-byte array on the new stream and a read of 4 bytes, a
  second \<open>setbuf\<close> is followed by a read that is served from the first array.
\<close>

theorem read_after_setbuf_uses_old_window:
  "observe (reg_file [1, 2, 3, 4, 5, 6, 7, 8, 9, 10]) [Read 4, SetBuf 16, Read 2] =
     Some [Bytes [1, 2, 3, 4], BufferSet, Failed MemoryFault]
   \<and> map_option (\<lambda>(os, b, w). (os, blk (gptr b), blk (buf b), heap w 3))
       (case fdistream_int 3 (ex_world (reg_file [1, 2, 3, 4, 5, 6, 7, 8, 9, 10])) of
          (Inr b, w) \<Rightarrow> run_stream [SetBuf 16, Read 4, SetBuf 32, Read 2] b w
        | (Inl e, w) \<Rightarrow> None) =
     Some ([BufferSet, Bytes [1, 2, 3, 4], BufferSet, Bytes [5, 6]], 2, 3, Some (replicate 32 0))"
  by (simp add: eval_defs)

section \<open>Skips in two steps and skips of nothing\<close>

lemma split_skip_chr:
  "observe (chr_file [[1, 2, 3, 4], [5, 6, 7, 8, 9, 10]])
     [Read 1, Seek 3 ios_cur {ios_in}, Read 1] =
     Some [Bytes [1], Pos 4, Bytes [5]]"
  "observe (chr_file [[1, 2, 3, 4], [5, 6, 7, 8, 9, 10]])
     [Read 1, Seek 1 ios_cur {ios_in}, Seek 2 ios_cur {ios_in}, Read 1] =
     Some [Bytes [1], Failed (Splice1Failed EINVAL)]"
  "observe (chr_file [[1, 2], [3, 4], [5, 6]]) [Seek 4 ios_cur {ios_in}, Read 1] =
     Some [Pos 0, Bytes [3]]"
  "observe (chr_file [[1, 2], [3, 4], [5, 6]])
     [Seek 2 ios_cur {ios_in}, Seek 2 ios_cur {ios_in}, Read 1] =
     Some [Pos 0, Pos 0, Bytes [5]]"
  by (simp_all add: eval_defs)

lemma split_skip_fifo:
  "observe (fifo_file [[1, 2, 3, 4], [5, 6, 7, 8, 9, 10]])
     [Read 1, Seek 3 ios_cur {ios_in}, Read 1] =
     Some [Bytes [1], Pos 4, Bytes [5]]"
  "observe (fifo_file [[1, 2, 3, 4], [5, 6, 7, 8, 9, 10]])
     [Read 1, Seek 1 ios_cur {ios_in}, Seek 2 ios_cur {ios_in}, Read 1] =
     Some [Bytes [1], Failed (SplicePipeToNullFailed EINVAL)]"
  by (simp_all add: eval_defs splice_pipe_to_null_def get_dev_null_pipe_def
      splice_pipe_loop.simps)

text \<open>
  Claim C6 says that skipping \<open>a\<close> and then \<open>b\<close> leaves the stream where skipping \<open>a + b\<close>
  leaves it, however many bytes were buffered. The code is evaluated here with 10 bytes
  arriving as 4 and 6, after 1 byte was read (3 are buffered), on a character device and
  on a FIFO. A skip of 3 succeeds and the next byte read is the fifth. A skip of 1 drops
  the 3 buffered bytes and hands \<open>skip\<close> the count \<open>2^64 - 2\<close>, a length the transfer
  refuses: the skip of 1 throws, and the skip of 2 is never reached. With 6 bytes
  arriving in pairs on a character device and nothing buffered: after a skip of 4 the
  next byte read is the third, after two skips of 2 it is the fifth.
\<close>

theorem split_skip_differs:
  "observe (chr_file [[1, 2, 3, 4], [5, 6, 7, 8, 9, 10]])
     [Read 1, Seek 3 ios_cur {ios_in}, Read 1] =
     Some [Bytes [1], Pos 4, Bytes [5]]
   \<and> observe (chr_file [[1, 2, 3, 4], [5, 6, 7, 8, 9, 10]])
     [Read 1, Seek 1 ios_cur {ios_in}, Seek 2 ios_cur {ios_in}, Read 1] =
     Some [Bytes [1], Failed (Splice1Failed EINVAL)]
   \<and> observe (fifo_file [[1, 2, 3, 4], [5, 6, 7, 8, 9, 10]])
     [Read 1, Seek 3 ios_cur {ios_in}, Read 1] =
     Some [Bytes [1], Pos 4, Bytes [5]]
   \<and> observe (fifo_file [[1, 2, 3, 4], [5, 6, 7, 8, 9, 10]])
     [Read 1, Seek 1 ios_cur {ios_in}, Seek 2 ios_cur {ios_in}, Read 1] =
     Some [Bytes [1], Failed (SplicePipeToNullFailed EINVAL)]
   \<and> observe (chr_file [[1, 2], [3, 4], [5, 6]]) [Seek 4 ios_cur {ios_in}, Read 1] =
     Some [Pos 0, Bytes [3]]
   \<and> observe (chr_file [[1, 2], [3, 4], [5, 6]])
     [Seek 2 ios_cur {ios_in}, Seek 2 ios_cur {ios_in}, Read 1] =
     Some [Pos 0, Pos 0, Bytes [5]]"
  using split_skip_chr split_skip_fifo by blast

lemma skip_zero_chr:
  "observe_left (chr_file [[1, 2, 3], [4, 5]]) [Read 1] =
     Some ([Bytes [1]], Some [2, 3], Some (Stream [[4, 5]]))"
  "observe_left (chr_file [[1, 2, 3], [4, 5]]) [Read 1, Seek 0 ios_cur {ios_in}] =
     Some ([Bytes [1], Failed (Splice1Failed EINVAL)], Some [], Some (Stream [[4, 5]]))"
  by (simp_all add: eval_defs)

lemma skip_zero_fifo:
  "observe_left (fifo_file [[1, 2, 3], [4, 5]]) [Read 1] =
     Some ([Bytes [1]], Some [2, 3], Some (Stream [[4, 5]]))"
  "observe_left (fifo_file [[1, 2, 3], [4, 5]]) [Read 1, Seek 0 ios_cur {ios_in}] =
     Some ([Bytes [1], Failed (SplicePipeToNullFailed EINVAL)], Some [], Some (Stream [[4, 5]]))"
  by (simp_all add: eval_defs splice_pipe_to_null_def get_dev_null_pipe_def
      splice_pipe_loop.simps)

text \<open>
  Claim C7 says that a skip of 0 changes nothing on any kind of descriptor, in any state
  of the buffer. The code is evaluated here with input arriving as 3 bytes, then 2
  bytes, after 1 byte was read, on a character device and on a FIFO: 2 bytes are
  buffered and 2 are still on the descriptor. The skip of 0 drops the 2 buffered bytes
  and hands \<open>skip\<close> the count \<open>2^64 - 2\<close>, a length the transfer refuses: the skip throws,
  the window is empty afterwards and the 2 bytes on the descriptor are still there.
\<close>

theorem skip_zero_discards_buffered:
  "observe_left (chr_file [[1, 2, 3], [4, 5]]) [Read 1] =
     Some ([Bytes [1]], Some [2, 3], Some (Stream [[4, 5]]))
   \<and> observe_left (chr_file [[1, 2, 3], [4, 5]]) [Read 1, Seek 0 ios_cur {ios_in}] =
     Some ([Bytes [1], Failed (Splice1Failed EINVAL)], Some [], Some (Stream [[4, 5]]))
   \<and> observe_left (fifo_file [[1, 2, 3], [4, 5]]) [Read 1] =
     Some ([Bytes [1]], Some [2, 3], Some (Stream [[4, 5]]))
   \<and> observe_left (fifo_file [[1, 2, 3], [4, 5]]) [Read 1, Seek 0 ios_cur {ios_in}] =
     Some ([Bytes [1], Failed (SplicePipeToNullFailed EINVAL)], Some [], Some (Stream [[4, 5]]))"
  using skip_zero_chr skip_zero_fifo by blast

section \<open>Ownership of the descriptor\<close>

lemma undisturbed_refl [simp]: "undisturbed d w w"
  by (simp add: undisturbed_def)

lemma undisturbed_trans: "undisturbed d w w1 \<Longrightarrow> undisturbed d w1 w2 \<Longrightarrow> undisturbed d w w2"
  by (auto simp: undisturbed_def)

lemma undisturbed_tl [simp]:
  "undisturbed d w (w1\<lparr>tl_dev_null_pipe := x\<rparr>) = undisturbed d w w1"
  "undisturbed d w (w1\<lparr>tl_dev_null := x\<rparr>) = undisturbed d w w1"
  "undisturbed d w (w1\<lparr>tl_p := y\<rparr>) = undisturbed d w w1"
  by (simp_all add: undisturbed_def)

text \<open>
  The open loop closes nothing; when it succeeds the descriptor is the next free number
  and the only entry of the table that changed, and when it fails the table is as before.
\<close>

lemma open_loop_result:
  "open_loop pth flags w = (r, w1) \<Longrightarrow>
     closes w1 = closes w \<and>
     (case r of
        Inr d \<Rightarrow> d = next_fd w \<and> next_fd w1 = next_fd w + 1 \<and>
                 (\<forall>x. x \<noteq> d \<longrightarrow> fdtab w1 x = fdtab w x) \<and> fdtab w1 d \<noteq> None
      | Inl e \<Rightarrow> next_fd w1 = next_fd w \<and> fdtab w1 = fdtab w)"
proof (induction pth flags w arbitrary: r w1 rule: open_loop.induct)
  case (1 pth flags w)
  show ?case
  proof (cases "sys_open pth flags w")
    case (Pair a w')
    show ?thesis
    proof (cases a)
      case (Inr d)
      with Pair 1(2) show ?thesis
        by (auto simp: open_loop.simps [of pth flags w] sys_open_def
            split: if_splits option.splits)
    next
      case (Inl e)
      show ?thesis
      proof (cases "e = EINTR")
        case True
        with Inl Pair 1(2) have rec: "open_loop pth flags w' = (r, w1)"
          by (simp add: open_loop.simps [of pth flags w])
        have w': "closes w' = closes w" "next_fd w' = next_fd w" "fdtab w' = fdtab w"
          using Pair Inl True by (auto simp: sys_open_def split: if_splits option.splits)
        from 1(1) [OF Pair [symmetric] Inl _ rec] True w' show ?thesis
          by (auto split: sum.splits)
      next
        case False
        with Inl Pair 1(2) show ?thesis
          by (auto simp: open_loop.simps [of pth flags w] sys_open_def
              split: if_splits option.splits)
      qed
    qed
  qed
qed

lemma Fd_path_undisturbed: "undisturbed d w (snd (Fd_path pth flags w))"
proof (cases "open_loop pth flags w")
  case (Pair r w1)
  from open_loop_result [OF Pair] show ?thesis
    using Pair
    by (cases r)
      (auto simp: Fd_path_def undisturbed_def sys_close_def split: sum.splits)
qed

lemma sys_read_undisturbed: "undisturbed d w (snd (sys_read x p n w))"
  by (auto simp: sys_read_def undisturbed_def split: option.splits)

lemma read_undisturbed: "undisturbed d w (snd (read f p n w))"
proof (induction f p n w rule: read.induct)
  case (1 f bufp count w)
  show ?case
  proof (cases "sys_read (fd f) bufp count w")
    case (Pair a w')
    have s: "undisturbed d w w'"
      using sys_read_undisturbed [of d w "fd f" bufp count] Pair by simp
    show ?thesis
    proof (cases a)
      case (Inr k)
      with Pair s show ?thesis by (simp add: read.simps [of f bufp count w])
    next
      case (Inl e)
      show ?thesis
      proof (cases "e = EINTR")
        case True
        from 1 [OF Pair [symmetric] Inl] True have "undisturbed d w' (snd (read f bufp count w'))"
          by simp
        with s have "undisturbed d w (snd (read f bufp count w'))"
          by (rule undisturbed_trans)
        with Pair Inl True show ?thesis by (simp add: read.simps [of f bufp count w])
      next
        case False
        with Pair Inl s show ?thesis by (simp add: read.simps [of f bufp count w])
      qed
    qed
  qed
qed

lemma lseek_undisturbed: "undisturbed d w (snd (lseek f offset wh w))"
  by (auto simp: lseek_def sys_lseek_def undisturbed_def Let_def
      split: option.splits fobj.splits whence.splits)

lemma sys_splice_undisturbed: "undisturbed d w (snd (sys_splice a b n w))"
  by (auto simp: sys_splice_def undisturbed_def split: option.splits)

lemma splice_pipe_loop_undisturbed:
  assumes "splice_pipe_loop f dn n w = Some y"
  shows "undisturbed d w (snd y)"
proof (rule splice_pipe_loop.raw_induct [OF _ assms])
  fix g and f dn :: Fd and n :: size_t and w :: world and y :: "(error + unit) \<times> world"
  assume ih: "\<And>f dn n w y. g f dn n w = Some y \<Longrightarrow> undisturbed d w (snd y)"
    and st: "(if 0 < n
         then case sys_splice (fd f) (fd dn) n w of
                (Inl e, w1) \<Rightarrow> Some (Inl (SplicePipeToNullFailed e), w1)
              | (Inr r, w1) \<Rightarrow> g f dn (n - word_of_nat r) w1
         else Some (Inr (), w)) = Some y"
  show "undisturbed d w (snd y)"
  proof (cases "0 < n")
    case False
    with st show ?thesis by auto
  next
    case True
    obtain a w1 where sp: "sys_splice (fd f) (fd dn) n w = (a, w1)"
      by (cases "sys_splice (fd f) (fd dn) n w") auto
    have s: "undisturbed d w w1"
      using sys_splice_undisturbed [of d w "fd f" "fd dn" n] sp by simp
    show ?thesis
    proof (cases a)
      case (Inl e)
      with st True sp s show ?thesis by auto
    next
      case (Inr r)
      with st True sp have "g f dn (n - word_of_nat r) w1 = Some y" by simp
      from s ih [OF this] show ?thesis by (rule undisturbed_trans)
    qed
  qed
qed

lemma get_dev_null_pipe_undisturbed: "undisturbed d w (snd (get_dev_null_pipe w))"
  using Fd_path_undisturbed [of d w "''/dev/null''" O_WRONLY]
  by (auto simp: get_dev_null_pipe_def split: option.splits prod.splits sum.splits)

lemma get_dev_null_undisturbed: "undisturbed d w (snd (get_dev_null w))"
  using Fd_path_undisturbed [of d w "''/dev/null''" O_WRONLY]
  by (auto simp: get_dev_null_def split: option.splits prod.splits sum.splits)

lemma get_p_undisturbed: "undisturbed d w (snd (get_p w))"
  by (auto simp: get_p_def Pipe_ctor_def sys_pipe_def undisturbed_def
      split: option.splits prod.splits sum.splits)

lemma splice_pipe_to_null_undisturbed:
  assumes "splice_pipe_to_null f n w = Some y"
  shows "undisturbed d w (snd y)"
proof (cases "get_dev_null_pipe w")
  case (Pair a w1)
  have s: "undisturbed d w w1"
    using get_dev_null_pipe_undisturbed [of d w] Pair by simp
  show ?thesis
  proof (cases a)
    case (Inl e)
    with assms Pair s show ?thesis by (auto simp: splice_pipe_to_null_def)
  next
    case (Inr dn)
    with assms Pair have "splice_pipe_loop f dn n w1 = Some y"
      by (simp add: splice_pipe_to_null_def)
    from s splice_pipe_loop_undisturbed [OF this] show ?thesis by (rule undisturbed_trans)
  qed
qed

lemma splice_to_null_undisturbed: "undisturbed d w (snd (splice_to_null f n w))"
proof -
  obtain a w1 where g1: "get_dev_null w = (a, w1)" by (cases "get_dev_null w") auto
  have s1: "undisturbed d w w1" using get_dev_null_undisturbed [of d w] g1 by simp
  obtain b w2 where g2: "get_p w1 = (b, w2)" by (cases "get_p w1") auto
  have s2: "undisturbed d w w2"
    using undisturbed_trans [OF s1] get_p_undisturbed [of d w1] g2 by simp
  show ?thesis
  proof (cases a)
    case (Inl e)
    with g1 s1 show ?thesis by (simp add: splice_to_null_def)
  next
    case a: (Inr dn)
    show ?thesis
    proof (cases b)
      case (Inl e)
      with a g1 g2 s2 show ?thesis by (simp add: splice_to_null_def)
    next
      case b: (Inr p)
      obtain c w3 where h1: "sys_splice (fd f) (write_end p) n w2 = (c, w3)"
        by (cases "sys_splice (fd f) (write_end p) n w2") auto
      have s3: "undisturbed d w w3"
        using undisturbed_trans [OF s2] sys_splice_undisturbed [of d w2 "fd f" "write_end p" n] h1
        by simp
      show ?thesis
      proof (cases c)
        case (Inl e)
        with a b g1 g2 h1 s2 s3 show ?thesis by (simp add: splice_to_null_def)
      next
        case c: (Inr rd)
        obtain e w4 where h2: "sys_splice (read_end p) (fd dn) (of_nat rd) w3 = (e, w4)"
          by (cases "sys_splice (read_end p) (fd dn) (of_nat rd) w3") auto
        have s4: "undisturbed d w w4"
          using undisturbed_trans [OF s3]
            sys_splice_undisturbed [of d w3 "read_end p" "fd dn" "of_nat rd"] h2
          by simp
        from a b c g1 g2 h1 h2 s2 s3 s4 show ?thesis
          by (cases e) (simp_all add: splice_to_null_def)
      qed
    qed
  qed
qed

lemma skip_undisturbed:
  assumes "skip f n w = Some y"
  shows "undisturbed d w (snd y)"
proof (cases "type f")
  case reg
  with assms lseek_undisturbed [of d w f n SEEK_CUR] show ?thesis
    by (auto simp: skip_def)
next
  case fifo
  with assms have "splice_pipe_to_null f n w = Some y" by (simp add: skip_def)
  then show ?thesis by (rule splice_pipe_to_null_undisturbed)
next
  case other
  with assms splice_to_null_undisturbed [of d w f n] show ?thesis
    by (auto simp: skip_def)
qed

lemma run_op_undisturbed:
  assumes "run_op f x w = Some w1"
  shows "undisturbed d w w1"
proof (cases x)
  case (OpRead p n)
  with assms read_undisturbed [of d w f p n] show ?thesis by auto
next
  case (OpLseek offset wh)
  with assms lseek_undisturbed [of d w f offset wh] show ?thesis by auto
next
  case (OpSkip n)
  with assms obtain y where "skip f n w = Some y" "w1 = snd y" by auto
  with skip_undisturbed [of f n w y d] show ?thesis by simp
qed

lemma run_ops_undisturbed:
  "run_ops f xs w = Some w1 \<Longrightarrow> undisturbed d w w1"
proof (induction xs arbitrary: w)
  case Nil
  then show ?case by simp
next
  case (Cons x xs)
  then obtain w' where a: "run_op f x w = Some w'" and b: "run_ops f xs w' = Some w1"
    by (auto split: option.splits)
  from run_op_undisturbed [OF a] Cons.IH [OF b] show ?case
    by (rule undisturbed_trans)
qed

text \<open>
  Claim C8. A handle built from a path owns its descriptor: whatever operations run on
  it, the descriptor stays open and is not closed until the destructor, which closes it
  once. A handle built from a descriptor number (one the kernel handed out before) never
  closes it, the destructor included. When \<^verbatim>\<open>fstat\<close> fails after the open succeeded, the constructor closes the new
  descriptor once and throws; when the open fails, nothing was opened and nothing is
  closed.
\<close>

theorem handle_closes_descriptor_once:
  "(Fd_path pth flags w = (Inr f, w1) \<and> run_ops f ops w1 = Some w2 \<longrightarrow>
      owned f \<and> fdtab w2 (fd f) \<noteq> None
      \<and> count_list (closes w2) (fd f) = count_list (closes w) (fd f)
      \<and> closes (Fd_dtor f w2) = closes w2 @ [fd f]
      \<and> fdtab (Fd_dtor f w2) (fd f) = None)
   \<and> (d < next_fd w \<and> Fd_int d w = (Inr g, v1) \<and> run_ops g ops v1 = Some v2 \<longrightarrow>
      \<not> owned g \<and> fd g = d \<and> fdtab v2 d \<noteq> None
      \<and> count_list (closes v2) d = count_list (closes w) d
      \<and> Fd_dtor g v2 = v2)
   \<and> (open_loop pth flags w = (Inr d1, u1) \<and> sys_fstat d1 u1 = Inl e \<longrightarrow>
      Fd_path pth flags w = (Inl (PathError pth e), sys_close d1 u1)
      \<and> closes (sys_close d1 u1) = closes w @ [d1]
      \<and> fdtab (sys_close d1 u1) d1 = None)
   \<and> (open_loop pth flags w = (Inl e1, u2) \<longrightarrow>
      Fd_path pth flags w = (Inl e1, u2) \<and> closes u2 = closes w \<and> fdtab u2 = fdtab w)"
proof (intro conjI impI)
  assume a: "Fd_path pth flags w = (Inr f, w1) \<and> run_ops f ops w1 = Some w2"
  then obtain d0 where o: "open_loop pth flags w = (Inr d0, w1)" and f: "fd f = d0" "owned f"
    by (auto simp: Fd_path_def split: prod.splits sum.splits)
  from open_loop_result [OF o]
  have r: "closes w1 = closes w" "d0 < next_fd w1" "fdtab w1 d0 \<noteq> None"
    by auto
  from a have "undisturbed d0 w1 w2"
    by (auto intro: run_ops_undisturbed)
  with r have u: "count_list (closes w2) d0 = count_list (closes w) d0" "fdtab w2 d0 \<noteq> None"
    by (auto simp: undisturbed_def)
  show "owned f" by (rule f)
  show "fdtab w2 (fd f) \<noteq> None" using u f by simp
  show "count_list (closes w2) (fd f) = count_list (closes w) (fd f)" using u f by simp
  show "closes (Fd_dtor f w2) = closes w2 @ [fd f]" using f by (simp add: Fd_dtor_def sys_close_def)
  show "fdtab (Fd_dtor f w2) (fd f) = None" using f by (simp add: Fd_dtor_def sys_close_def)
next
  assume a: "d < next_fd w \<and> Fd_int d w = (Inr g, v1) \<and> run_ops g ops v1 = Some v2"
  then have g: "fd g = d" "\<not> owned g" "v1 = w" "fdtab w d \<noteq> None"
    by (auto simp: Fd_int_def sys_fstat_def split: sum.splits option.splits)
  from a g have "undisturbed d w v2"
    by (auto intro: run_ops_undisturbed)
  with a g have u: "count_list (closes v2) d = count_list (closes w) d" "fdtab v2 d \<noteq> None"
    by (auto simp: undisturbed_def)
  show "\<not> owned g" by (rule g)
  show "fd g = d" by (rule g)
  show "fdtab v2 d \<noteq> None" by (rule u)
  show "count_list (closes v2) d = count_list (closes w) d" by (rule u)
  show "Fd_dtor g v2 = v2" using g by (simp add: Fd_dtor_def)
next
  assume a: "open_loop pth flags w = (Inr d1, u1) \<and> sys_fstat d1 u1 = Inl e"
  then show "Fd_path pth flags w = (Inl (PathError pth e), sys_close d1 u1)"
    by (simp add: Fd_path_def)
  from a open_loop_result [of pth flags w "Inr d1" u1]
  show "closes (sys_close d1 u1) = closes w @ [d1]"
    by (simp add: sys_close_def)
  show "fdtab (sys_close d1 u1) d1 = None"
    by (simp add: sys_close_def)
next
  assume a: "open_loop pth flags w = (Inl e1, u2)"
  then show "Fd_path pth flags w = (Inl e1, u2)"
    by (simp add: Fd_path_def)
  from open_loop_result [OF a] show "closes u2 = closes w" by simp
  from open_loop_result [OF a] show "fdtab u2 = fdtab w" by simp
qed

text \<open>
  On a regular file opened by path (descriptor 4) with a seek and a skip; on a character
  device borrowed as descriptor 3 with a skip, which opens the null device and the pipe;
  on a path whose \<^verbatim>\<open>fstat\<close> fails; and on a path that does not exist.
\<close>

theorem handle_closes_descriptor_once_witness:
  "(\<exists>f w1 w2.
      Fd_path ''data.bin'' O_RDONLY (ex_world (reg_file [1, 2, 3])) = (Inr f, w1) \<and>
      run_ops f [OpLseek 1 SEEK_SET, OpSkip 1] w1 = Some w2 \<and>
      owned f \<and> fd f = 4 \<and> fdtab w2 4 \<noteq> None \<and> count_list (closes w2) 4 = 0 \<and>
      closes (Fd_dtor f w2) = closes w2 @ [4] \<and> fdtab (Fd_dtor f w2) 4 = None)
   \<and> (\<exists>g v1 v2.
      Fd_int 3 (ex_world (chr_file [[1, 2, 3]])) = (Inr g, v1) \<and>
      run_ops g [OpSkip 2] v1 = Some v2 \<and>
      \<not> owned g \<and> fdtab v2 3 \<noteq> None \<and> count_list (closes v2) 3 = 0 \<and> Fd_dtor g v2 = v2)
   \<and> (\<exists>u. Fd_path ''data.bin'' O_RDONLY (ex_world ((reg_file [1, 2, 3])\<lparr>stat_errno := Some EIO\<rparr>)) =
            (Inl (PathError ''data.bin'' EIO), u) \<and>
          closes u = [4] \<and> fdtab u 4 = None)
   \<and> (\<exists>u. Fd_path ''missing'' O_RDONLY (ex_world (reg_file [1, 2, 3])) =
            (Inl (PathError ''missing'' ENOENT), u) \<and>
          closes u = [] \<and> fdtab u = fdtab (ex_world (reg_file [1, 2, 3])))"
proof -
  let ?r = "ex_world (reg_file [1, 2, 3])"
  let ?c = "ex_world (chr_file [[1, 2, 3]])"
  let ?e = "ex_world ((reg_file [1, 2, 3])\<lparr>stat_errno := Some EIO\<rparr>)"
  obtain f w1 where p1: "Fd_path ''data.bin'' O_RDONLY ?r = (Inr f, w1)" and f4: "fd f = 4"
    by (simp add: eval_defs)
  obtain w2 where p2: "run_ops f [OpLseek 1 SEEK_SET, OpSkip 1] w1 = Some w2"
    using p1 by (auto simp: eval_defs)
  have c0: "closes ?r = []" "closes ?c = []" "(3::int) < next_fd ?c"
    by (simp_all add: ex_world_def)
  obtain g v1 where q1: "Fd_int 3 ?c = (Inr g, v1)"
    by (simp add: eval_defs)
  obtain v2 where q2: "run_ops g [OpSkip 2] v1 = Some v2"
    using q1 by (auto simp: eval_defs)
  obtain u1 where o3: "open_loop ''data.bin'' O_RDONLY ?e = (Inr 4, u1)"
    and s3: "sys_fstat 4 u1 = Inl EIO" and c3: "closes ?e = []"
    by (simp add: eval_defs)
  obtain u2 where o4: "open_loop ''missing'' O_RDONLY ?r = (Inl (PathError ''missing'' ENOENT), u2)"
    by (simp add: eval_defs)
  note t1 = handle_closes_descriptor_once
      [where pth = "''data.bin''" and flags = O_RDONLY and w = ?r and f = f and ?w1.0 = w1
         and ops = "[OpLseek 1 SEEK_SET, OpSkip 1]" and ?w2.0 = w2]
  note t2 = handle_closes_descriptor_once
      [where w = ?c and d = 3 and g = g and ?v1.0 = v1 and ops = "[OpSkip 2]" and ?v2.0 = v2]
  note t3 = handle_closes_descriptor_once
      [where pth = "''data.bin''" and flags = O_RDONLY and w = ?e and ?d1.0 = 4 and ?u1.0 = u1
         and e = EIO]
  note t4 = handle_closes_descriptor_once
      [where pth = "''missing''" and flags = O_RDONLY and w = ?r
         and ?e1.0 = "PathError ''missing'' ENOENT" and ?u2.0 = u2]
  have a1: "\<exists>f w1 w2.
      Fd_path ''data.bin'' O_RDONLY ?r = (Inr f, w1) \<and>
      run_ops f [OpLseek 1 SEEK_SET, OpSkip 1] w1 = Some w2 \<and>
      owned f \<and> fd f = 4 \<and> fdtab w2 4 \<noteq> None \<and> count_list (closes w2) 4 = 0 \<and>
      closes (Fd_dtor f w2) = closes w2 @ [4] \<and> fdtab (Fd_dtor f w2) 4 = None"
    using t1 p1 p2 f4 c0 by auto
  have a2: "\<exists>g v1 v2.
      Fd_int 3 ?c = (Inr g, v1) \<and> run_ops g [OpSkip 2] v1 = Some v2 \<and>
      \<not> owned g \<and> fdtab v2 3 \<noteq> None \<and> count_list (closes v2) 3 = 0 \<and> Fd_dtor g v2 = v2"
    using t2 q1 q2 c0 by auto
  have a3: "\<exists>u. Fd_path ''data.bin'' O_RDONLY ?e = (Inl (PathError ''data.bin'' EIO), u) \<and>
          closes u = [4] \<and> fdtab u 4 = None"
    using t3 o3 s3 c3 by auto
  have a4: "\<exists>u. Fd_path ''missing'' O_RDONLY ?r = (Inl (PathError ''missing'' ENOENT), u) \<and>
          closes u = [] \<and> fdtab u = fdtab ?r"
    using t4 o4 c0 by auto
  from a1 a2 a3 a4 show ?thesis by blast
qed

section \<open>Descriptor classification\<close>

lemma open_data_bin:
  "open_loop ''data.bin'' O_RDONLY (ex_world f) =
     (Inr 4, (ex_world f)\<lparr>fdtab := (fdtab (ex_world f))(4 \<mapsto> f\<lparr>oflags := O_RDONLY\<rparr>), next_fd := 5\<rparr>)"
  by (simp add: open_loop.simps sys_open_def ex_world_def)

text \<open>
  Claim C9. Both constructors classify by testing \<open>st_mode\<close> with a bitwise AND, first
  against \<open>S_IFREG\<close>, then against \<open>S_IFIFO\<close>, and fall through to \<open>other\<close>; the file-type
  field is never compared for equality. Whenever \<^verbatim>\<open>fstat\<close> succeeds, the kind of the handle
  is decided by those two tests in that order, and \<open>skip\<close> on the handle is the \<open>lseek\<close> call
  when the \<open>S_IFREG\<close> bit is set, the direct transfer when only the \<open>S_IFIFO\<close> bit is, and the
  two-hop transfer otherwise. A socket's type code has the \<open>S_IFREG\<close> bit although its
  file-type field is not \<open>S_IFREG\<close>, so a socket is of kind \<open>reg\<close>.
\<close>

theorem regular_bit_test_classifies:
  "(sys_fstat d w = Inr m \<longrightarrow>
      (\<exists>f. Fd_int d w = (Inr f, w) \<and> fd f = d \<and> \<not> owned f \<and>
           type f = (if m AND S_IFREG \<noteq> 0 then reg
                     else if m AND S_IFIFO \<noteq> 0 then fifo
                     else other) \<and>
           skip f n w' = (if m AND S_IFREG \<noteq> 0 then Some (lseek f n SEEK_CUR w')
                          else if m AND S_IFIFO \<noteq> 0 then splice_pipe_to_null f n w'
                          else Some (splice_to_null f n w'))))
   \<and> (open_loop pth flags w0 = (Inr d1, w1) \<and> sys_fstat d1 w1 = Inr m1 \<longrightarrow>
      (\<exists>f. Fd_path pth flags w0 = (Inr f, w1) \<and> fd f = d1 \<and> owned f \<and>
           type f = (if m1 AND S_IFREG \<noteq> 0 then reg
                     else if m1 AND S_IFIFO \<noteq> 0 then fifo
                     else other) \<and>
           skip f n w' = (if m1 AND S_IFREG \<noteq> 0 then Some (lseek f n SEEK_CUR w')
                          else if m1 AND S_IFIFO \<noteq> 0 then splice_pipe_to_null f n w'
                          else Some (splice_to_null f n w'))))
   \<and> S_IFSOCK AND S_IFREG \<noteq> 0 \<and> S_IFSOCK AND S_IFMT \<noteq> S_IFREG"
  by (simp add: Fd_int_def Fd_path_def skip_def S_IFSOCK_def S_IFREG_def S_IFMT_def)

text \<open>
  Borrowed as descriptor 3: a socket is \<open>reg\<close> and skipping fails in \<open>lseek\<close> with
  \<open>ESPIPE\<close>; a FIFO is \<open>fifo\<close> and a character device is \<open>other\<close>, and a skip of 2 of their 3
  bytes leaves 1. Opened by path: a regular file is \<open>reg\<close> and skipping moves the file
  offset; a character device is \<open>other\<close>.
\<close>

theorem regular_bit_test_classifies_witness:
  "(\<exists>f. Fd_int 3 (ex_world (sock_file [[1, 2, 3]])) = (Inr f, ex_world (sock_file [[1, 2, 3]])) \<and>
        type f = reg \<and>
        skip f 2 (ex_world (sock_file [[1, 2, 3]])) =
          Some (Inl (SeekError ESPIPE), ex_world (sock_file [[1, 2, 3]])))
   \<and> (\<exists>f. Fd_int 3 (ex_world (fifo_file [[1, 2, 3]])) = (Inr f, ex_world (fifo_file [[1, 2, 3]])) \<and>
        type f = fifo \<and>
        map_option (\<lambda>(r, w2). (r, map_option obj (fdtab w2 3)))
          (skip f 2 (ex_world (fifo_file [[1, 2, 3]]))) = Some (Inr (), Some (Stream [[3]])))
   \<and> (\<exists>f. Fd_int 3 (ex_world (chr_file [[1, 2, 3]])) = (Inr f, ex_world (chr_file [[1, 2, 3]])) \<and>
        type f = other \<and>
        map_option (\<lambda>(r, w2). (r, map_option obj (fdtab w2 3)))
          (skip f 2 (ex_world (chr_file [[1, 2, 3]]))) = Some (Inr (), Some (Stream [[3]])))
   \<and> (\<exists>f w1. Fd_path ''data.bin'' O_RDONLY (ex_world (reg_file [7, 8, 9])) = (Inr f, w1) \<and>
        fd f = 4 \<and> type f = reg \<and>
        map_option (\<lambda>(r, w2). (r, map_option obj (fdtab w2 4))) (skip f 2 w1) =
          Some (Inr (), Some (RegFile [7, 8, 9] 2)))
   \<and> (\<exists>f w1. Fd_path ''data.bin'' O_RDONLY (ex_world (chr_file [[1, 2, 3]])) = (Inr f, w1) \<and>
        fd f = 4 \<and> type f = other)"
proof -
  let ?s = "ex_world (sock_file [[1, 2, 3]])"
  let ?p = "ex_world (fifo_file [[1, 2, 3]])"
  let ?c = "ex_world (chr_file [[1, 2, 3]])"
  let ?r = "ex_world (reg_file [7, 8, 9])"
  have s1: "sys_fstat 3 ?s = Inr (S_IFSOCK OR 511)"
    and p1: "sys_fstat 3 ?p = Inr (S_IFIFO OR 384)"
    and c1: "sys_fstat 3 ?c = Inr (S_IFCHR OR 400)"
    by (simp_all add: sys_fstat_def ex_world_def sock_file_def fifo_file_def chr_file_def)
  have bits: "(S_IFSOCK OR 511) AND S_IFREG \<noteq> 0"
    "(S_IFIFO OR 384) AND S_IFREG = 0" "(S_IFIFO OR 384) AND S_IFIFO \<noteq> 0"
    "(S_IFCHR OR 400) AND S_IFREG = 0" "(S_IFCHR OR 400) AND S_IFIFO = 0"
    "(S_IFREG OR 420) AND S_IFREG \<noteq> 0"
    by (simp_all add: S_IFSOCK_def S_IFREG_def S_IFIFO_def S_IFCHR_def)
  obtain w1 where o: "open_loop ''data.bin'' O_RDONLY ?r = (Inr 4, w1)"
    and w1: "w1 = ?r\<lparr>fdtab := (fdtab ?r)(4 \<mapsto> (reg_file [7, 8, 9])\<lparr>oflags := O_RDONLY\<rparr>), next_fd := 5\<rparr>"
    using open_data_bin by blast
  have r1: "sys_fstat 4 w1 = Inr (S_IFREG OR 420)"
    by (simp add: w1 sys_fstat_def reg_file_def)
  obtain v1 where o': "open_loop ''data.bin'' O_RDONLY ?c = (Inr 4, v1)"
    and v1: "v1 = ?c\<lparr>fdtab := (fdtab ?c)(4 \<mapsto> (chr_file [[1, 2, 3]])\<lparr>oflags := O_RDONLY\<rparr>), next_fd := 5\<rparr>"
    using open_data_bin by blast
  have c2: "sys_fstat 4 v1 = Inr (S_IFCHR OR 400)"
    by (simp add: v1 sys_fstat_def chr_file_def)
  from regular_bit_test_classifies
         [of 3 ?s "S_IFSOCK OR 511" 2 ?s "''data.bin''" O_RDONLY ?r 4 w1 "S_IFREG OR 420"]
    s1 o r1 bits
  obtain f g where
    f: "Fd_int 3 ?s = (Inr f, ?s)" "fd f = 3" "type f = reg"
       "skip f 2 ?s = Some (lseek f 2 SEEK_CUR ?s)"
    and g: "Fd_path ''data.bin'' O_RDONLY ?r = (Inr g, w1)" "fd g = 4" "type g = reg"
    by auto
  from regular_bit_test_classifies
         [of 3 ?p "S_IFIFO OR 384" 2 ?p "''data.bin''" O_RDONLY ?c 4 v1 "S_IFCHR OR 400"]
    p1 o' c2 bits
  obtain h k where
    h: "Fd_int 3 ?p = (Inr h, ?p)" "fd h = 3" "type h = fifo"
       "skip h 2 ?p = splice_pipe_to_null h 2 ?p"
    and k: "Fd_path ''data.bin'' O_RDONLY ?c = (Inr k, v1)" "fd k = 4" "type k = other"
    by auto
  from regular_bit_test_classifies [of 3 ?c "S_IFCHR OR 400" 2 ?c, THEN conjunct1] c1 bits
  obtain l where
    l: "Fd_int 3 ?c = (Inr l, ?c)" "fd l = 3" "type l = other"
       "skip l 2 ?c = Some (splice_to_null l 2 ?c)"
    by auto
  have a1: "skip f 2 ?s = Some (Inl (SeekError ESPIPE), ?s)"
    using f(2,4) by (simp add: lseek_def sys_lseek_def ex_world_def sock_file_def)
  have a2: "map_option (\<lambda>(r, w2). (r, map_option obj (fdtab w2 3))) (skip h 2 ?p) =
      Some (Inr (), Some (Stream [[3]]))"
    using h(2) unfolding h(4)
    by (simp add: eval_defs splice_pipe_to_null_def get_dev_null_pipe_def splice_pipe_loop.simps)
  have a3: "map_option (\<lambda>(r, w2). (r, map_option obj (fdtab w2 3))) (skip l 2 ?c) =
      Some (Inr (), Some (Stream [[3]]))"
    using l(2) unfolding l(4)
    by (simp add: eval_defs)
  have a4: "map_option (\<lambda>(r, w2). (r, map_option obj (fdtab w2 4))) (skip g 2 w1) =
      Some (Inr (), Some (RegFile [7, 8, 9] 2))"
    using g(2,3) by (simp add: skip_def lseek_def sys_lseek_def w1 reg_file_def)
  from f a1 h a2 l a3 g a4 k show ?thesis by blast
qed

section \<open>The remainder handed to \<open>skip\<close> by \<open>seekoff\<close>\<close>

lemma word_of_int_diff_uint:
  "uint (word_of_int (sint (off::64 word) - k) :: 64 word) = (sint off - k) mod 2 ^ 64"
  unfolding uint_word_of_int by simp

lemma word_of_int_diff_nonzero:
  assumes "sint (off::64 word) < k" "k < 2 ^ 63"
  shows "(word_of_int (sint off - k) :: 64 word) \<noteq> 0"
proof -
  have lo: "- (2 ^ 63) \<le> sint off"
    using sint_ge [of off] by simp
  have "\<not> (2 ^ 64 :: int) dvd (sint off - k)"
  proof
    assume "(2 ^ 64 :: int) dvd (sint off - k)"
    then have "(2 ^ 64 :: int) dvd (k - sint off)"
      by (simp add: dvd_diff_commute)
    moreover have "0 < k - sint off" using assms by simp
    ultimately have "(2 ^ 64 :: int) \<le> k - sint off"
      by (rule zdvd_imp_le)
    with lo assms show False by simp
  qed
  then show ?thesis
    unfolding word_of_int_eq_0_iff by simp
qed

text \<open>
  Claim C10. On the path taken by a relative seek whose mode is not \<^verbatim>\<open>out\<close>, the window is
  consumed whole (the cursor is put at the window's end) whatever the offset, and \<open>skip\<close>
  receives the signed difference \<open>off - buffered\<close> as an unsigned 64-bit count: its value
  is \<open>(off - buffered) mod 2^64\<close>, which is not zero when the offset is smaller than the
  number of buffered unread bytes.
\<close>

theorem seekoff_remainder_wraps:
  assumes "which \<noteq> {ios_out}"
  shows "seekoff b off ios_cur which w =
           map_option
             (\<lambda>(r, w1). (map_sum id (\<lambda>u. ptr_diff (egptr b) (eback b)) r, b\<lparr>gptr := egptr b\<rparr>, w1))
             (skip (hfd b) (word_of_int (sint off - ptr_diff (egptr b) (gptr b))) w)
         \<and> uint (word_of_int (sint off - ptr_diff (egptr b) (gptr b)) :: size_t) =
             (sint off - ptr_diff (egptr b) (gptr b)) mod 2 ^ 64
         \<and> (sint off < ptr_diff (egptr b) (gptr b) \<and> ptr_diff (egptr b) (gptr b) < 2 ^ 63 \<longrightarrow>
             (word_of_int (sint off - ptr_diff (egptr b) (gptr b)) :: size_t) \<noteq> 0)"
  using seekoff_cur [OF assms] word_of_int_diff_uint word_of_int_diff_nonzero
  by blast

text \<open>
  On a 10-byte regular file of which 4 bytes were read (6 more are buffered), a seek by 1
  hands \<open>skip\<close> the count \<open>2^64 - 5\<close>; \<open>lseek\<close> reads it as \<open>-5\<close> and moves the file offset
  from 10 to 5.
\<close>

theorem seekoff_remainder_wraps_witness:
  "\<exists>b0 w0 bs b w.
      fdbuf_int 3 (ex_world (reg_file [1, 2, 3, 4, 5, 6, 7, 8, 9, 10])) = (Inr b0, w0) \<and>
      xsgetn b0 4 w0 = (Inr bs, b, w) \<and>
      ptr_diff (egptr b) (gptr b) = 6 \<and>
      seekoff b 1 ios_cur {ios_in} w =
        map_option (\<lambda>(r, w1). (map_sum id (\<lambda>u. 10) r, b\<lparr>gptr := egptr b\<rparr>, w1))
          (skip (hfd b) (word_of_int (1 - 6)) w) \<and>
      uint (word_of_int (1 - 6) :: size_t) = 2 ^ 64 - 5 \<and>
      (word_of_int (1 - 6) :: size_t) \<noteq> 0 \<and>
      map_option (\<lambda>(r, b1, w1). (r, gptr b1, map_option obj (fdtab w1 3)))
        (seekoff b 1 ios_cur {ios_in} w) =
        Some (Inr 10, Ptr 1 10, Some (RegFile [1, 2, 3, 4, 5, 6, 7, 8, 9, 10] 5))"
proof -
  let ?c = "[1, 2, 3, 4, 5, 6, 7, 8, 9, 10] :: byte list"
  obtain b0 w0 where c: "fdbuf_int 3 (ex_world (reg_file ?c)) = (Inr b0, w0)"
    by (simp add: eval_defs)
  obtain r b w where x: "xsgetn b0 4 w0 = (r, b, w)"
    by (cases "xsgetn b0 4 w0") auto
  have r: "r = Inr [1, 2, 3, 4]"
    and g: "gptr b = Ptr 1 4" "egptr b = Ptr 1 10" "eback b = Ptr 1 0"
    and h: "hfd b = \<lparr>fd = 3, type = reg, owned = False\<rparr>"
    and o: "fdtab w 3 = Some ((reg_file ?c)\<lparr>obj := RegFile ?c 10\<rparr>)"
    using c x by (auto simp: eval_defs)
  have d: "ptr_diff (egptr b) (gptr b) = 6" "ptr_diff (egptr b) (eback b) = 10"
    using g by (simp_all add: ptr_diff_def)
  have ne: "{ios_in} \<noteq> {ios_out}" by simp
  have lt: "sint (1 :: off_t) < ptr_diff (egptr b) (gptr b) \<and> ptr_diff (egptr b) (gptr b) < 2 ^ 63"
    using d by simp
  note t = seekoff_remainder_wraps [OF ne, of b 1 w]
  have s: "skip (hfd b) (word_of_int (1 - 6)) w =
      Some (Inr (), w\<lparr>fdtab := (fdtab w)(3 \<mapsto> (reg_file ?c)\<lparr>obj := RegFile ?c 5\<rparr>)\<rparr>)"
    using h o by (simp add: skip_def lseek_def sys_lseek_def)
  show ?thesis
    using c x r d t lt s g by (auto simp: uint_word_of_int)
qed

end
